theory Spec2Isabelle
  imports Complex_Main "HOL-Library.AList"
begin

section \<open>JavaScript values\<close>

text \<open>
  A JavaScript string is a sequence of UTF-16 code units; \<open>.length\<close>, \<open>slice\<close>,
  \<open>lastIndexOf\<close> and \<open>includes\<close> all count code units. Code units are natural numbers
  here, and \<open>asc\<close> reads an ASCII literal.
\<close>

type_synonym jstring = "nat list"

definition asc :: "string \<Rightarrow> jstring" where
  "asc s = map of_char s"

text \<open>
  A JavaScript number is a finite value, an infinity or NaN. Finite values are exact
  rationals. Sums, differences and halves are taken exactly, as binary64 takes them on
  the token counts, lengths and indices of this program, which are whole numbers far
  below \<open>2^53\<close>; the one product of the program, which binary64 rounds, is a parameter
  of the model (\<open>floatProduct\<close> below). The sign of zero is not modelled.
\<close>

datatype jsnum = Fin rat | PInf | NInf | NaN

datatype jsval =
    JUndefined
  | JNull
  | JBool bool
  | JNum jsnum
  | JStr jstring
  | JArr "jsval list"
  | JObj "(jstring \<times> jsval) list"

text \<open>
  \<open>JObj\<close> lists the own enumerable properties in the object's enumeration order;
  \<open>getProp\<close> is the property read \<open>v.k\<close>. The keys this program reads (\<open>role\<close>,
  \<open>content\<close>, \<open>type\<close>, \<open>text\<close>, \<open>image\<close>, \<open>images\<close>, \<open>url\<close> and the
  configuration keys) are never array indices or \<open>length\<close>, so on an array and on a
  primitive the read gives \<open>undefined\<close>.
\<close>

fun getProp :: "jsval \<Rightarrow> jstring \<Rightarrow> jsval" where
  "getProp (JObj kvs) k = (case map_of kvs k of Some v \<Rightarrow> v | None \<Rightarrow> JUndefined)"
| "getProp _ k = JUndefined"

text \<open>\<open>typeof v === "object"\<close> together with truthiness: \<open>null\<close> is excluded.\<close>

fun is_object :: "jsval \<Rightarrow> bool" where
  "is_object (JObj kvs) = True"
| "is_object (JArr xs) = True"
| "is_object _ = False"

subsection \<open>Number operations\<close>

fun isFinite :: "jsnum \<Rightarrow> bool" where
  "isFinite (Fin q) = True"
| "isFinite _ = False"

text \<open>The relational operators; every comparison with NaN is false.\<close>

fun js_lt :: "jsnum \<Rightarrow> jsnum \<Rightarrow> bool" where
  "js_lt (Fin a) (Fin b) = (a < b)"
| "js_lt (Fin a) PInf = True"
| "js_lt NInf (Fin b) = True"
| "js_lt NInf PInf = True"
| "js_lt _ _ = False"

fun js_le :: "jsnum \<Rightarrow> jsnum \<Rightarrow> bool" where
  "js_le (Fin a) (Fin b) = (a \<le> b)"
| "js_le (Fin a) PInf = True"
| "js_le NInf (Fin b) = True"
| "js_le NInf PInf = True"
| "js_le PInf PInf = True"
| "js_le NInf NInf = True"
| "js_le _ _ = False"

definition js_ge :: "jsnum \<Rightarrow> jsnum \<Rightarrow> bool" where
  "js_ge a b = js_le b a"

definition js_gt :: "jsnum \<Rightarrow> jsnum \<Rightarrow> bool" where
  "js_gt a b = js_lt b a"

text \<open>\<open>a - b\<close>.\<close>

fun js_sub :: "jsnum \<Rightarrow> jsnum \<Rightarrow> jsnum" where
  "js_sub (Fin a) (Fin b) = Fin (a - b)"
| "js_sub NaN _ = NaN"
| "js_sub _ NaN = NaN"
| "js_sub PInf PInf = NaN"
| "js_sub NInf NInf = NaN"
| "js_sub PInf _ = PInf"
| "js_sub NInf _ = NInf"
| "js_sub (Fin a) PInf = NInf"
| "js_sub (Fin a) NInf = PInf"

text \<open>\<open>Math.max(a, b)\<close>, \<open>Math.floor(a)\<close>.\<close>

fun Math_max :: "jsnum \<Rightarrow> jsnum \<Rightarrow> jsnum" where
  "Math_max NaN _ = NaN"
| "Math_max _ NaN = NaN"
| "Math_max a b = (if js_lt a b then b else a)"

fun Math_floor :: "jsnum \<Rightarrow> jsnum" where
  "Math_floor (Fin q) = Fin (of_int \<lfloor>q\<rfloor>)"
| "Math_floor n = n"

text \<open>\<open>ToIntegerOrInfinity\<close>: NaN becomes 0, a fraction is cut towards zero.\<close>

definition ToInteger :: "rat \<Rightarrow> int" where
  "ToInteger q = (if q < 0 then \<lceil>q\<rceil> else \<lfloor>q\<rfloor>)"

subsection \<open>Truthiness\<close>

fun truthy :: "jsval \<Rightarrow> bool" where
  "truthy JUndefined = False"
| "truthy JNull = False"
| "truthy (JBool b) = b"
| "truthy (JNum (Fin q)) = (q \<noteq> 0)"
| "truthy (JNum NaN) = False"
| "truthy (JNum n) = True"
| "truthy (JStr s) = (s \<noteq> [])"
| "truthy (JArr xs) = True"
| "truthy (JObj kvs) = True"

subsection \<open>String operations\<close>

text \<open>
  \<open>Array.prototype.join\<close> on strings, \<open>String.prototype.includes\<close>,
  \<open>lastIndexOf\<close> (\<open>-1\<close> when the pattern does not occur) and \<open>slice\<close> with its
  argument clamping (a negative argument counts from the end).
\<close>

fun joinWith :: "jstring \<Rightarrow> jstring list \<Rightarrow> jstring" where
  "joinWith sep [] = []"
| "joinWith sep [x] = x"
| "joinWith sep (x # y # ys) = x @ sep @ joinWith sep (y # ys)"

definition occursAt :: "jstring \<Rightarrow> jstring \<Rightarrow> nat \<Rightarrow> bool" where
  "occursAt text pat i = (take (length pat) (drop i text) = pat \<and> i + length pat \<le> length text)"

definition str_includes :: "jstring \<Rightarrow> jstring \<Rightarrow> bool" where
  "str_includes text pat = list_ex (occursAt text pat) [0..<Suc (length text)]"

definition lastIndexOf :: "jstring \<Rightarrow> jstring \<Rightarrow> int" where
  "lastIndexOf text pat =
     (case List.find (occursAt text pat) (rev [0..<Suc (length text)]) of
        None \<Rightarrow> - 1
      | Some i \<Rightarrow> int i)"

fun relativeIndex :: "nat \<Rightarrow> jsnum \<Rightarrow> nat" where
  "relativeIndex len NaN = 0"
| "relativeIndex len NInf = 0"
| "relativeIndex len PInf = len"
| "relativeIndex len (Fin q) =
     (if ToInteger q < 0 then nat (max (int len + ToInteger q) 0)
      else min (nat (ToInteger q)) len)"

definition slice :: "jstring \<Rightarrow> jsnum \<Rightarrow> jsnum option \<Rightarrow> jstring" where
  "slice s start stop =
     (let a = relativeIndex (length s) start;
          b = (case stop of None \<Rightarrow> length s | Some e \<Rightarrow> relativeIndex (length s) e)
      in take (b - a) (drop a s))"

text \<open>
  White space and line terminators: what \<open>trim\<close> strips and what \<open>\s\<close> matches in a
  regular expression.
\<close>

definition isSpace :: "nat \<Rightarrow> bool" where
  "isSpace c = (c \<in> {9, 10, 11, 12, 13, 32, 160, 5760, 8232, 8233, 8239, 8287, 12288, 65279}
                \<or> (8192 \<le> c \<and> c \<le> 8202))"

definition trim :: "jstring \<Rightarrow> jstring" where
  "trim s = rev (dropWhile isSpace (rev (dropWhile isSpace s)))"

text \<open>
  \<open>text.split(/\n\s*\n/g)\<close>. At a line feed the pattern takes the longest run of white
  space after it and gives back down to the last line feed of that run; \<open>matchBlank\<close>
  is given the text after the first line feed and returns the index of that last line
  feed. The separators are not kept, and the piece after the last separator is always
  there.
\<close>

definition matchBlank :: "jstring \<Rightarrow> nat option" where
  "matchBlank rest =
     List.find (\<lambda>j. rest ! j = 10) (rev [0..<length (takeWhile isSpace rest)])"

function splitBlank :: "jstring \<Rightarrow> jstring \<Rightarrow> jstring list" where
  "splitBlank cur [] = [cur]"
| "splitBlank cur (c # cs) =
     (if c = 10 then
        (case matchBlank cs of
           Some j \<Rightarrow> cur # splitBlank [] (drop (Suc j) cs)
         | None \<Rightarrow> splitBlank (cur @ [c]) cs)
      else splitBlank (cur @ [c]) cs)"
  by pat_completeness auto
termination
  by (relation "measure (\<lambda>(cur, s). length s)") auto

text \<open>The decimal digits of a length, as a template literal prints it.\<close>

fun decimal :: "nat \<Rightarrow> jstring" where
  "decimal n = (if n < 10 then [48 + n] else decimal (n div 10) @ [48 + n mod 10])"

subsection \<open>Built-ins taken as parameters\<close>

text \<open>
  Three built-ins depend on tables or on arithmetic that are not part of this program:
  the digits that \<open>String\<close> prints for a number (the shortest decimal that reads back
  as the same binary64 value), the Unicode lower-casing of \<open>toLowerCase\<close>, and the
  product \<open>a * b\<close> of a whole number and a finite number, which is the exact product
  rounded to the nearest binary64 value and so need not be the exact product
  (\<open>90 * 0.7\<close> is below 63). Every function that reaches them takes them as a
  parameter.
\<close>

record host =
  numberToString :: "jsnum \<Rightarrow> jstring"
  toLowerCase :: "jstring \<Rightarrow> jstring"
  floatProduct :: "nat \<Rightarrow> rat \<Rightarrow> rat"

text \<open>
  \<open>String(v)\<close>, where it returns; an array joins its elements with commas, \<open>null\<close> and
  \<open>undefined\<close> elements printing as nothing.
\<close>

fun js_String :: "host \<Rightarrow> jsval \<Rightarrow> jstring" where
  "js_String H JUndefined = asc ''undefined''"
| "js_String H JNull = asc ''null''"
| "js_String H (JBool b) = (if b then asc ''true'' else asc ''false'')"
| "js_String H (JNum n) = numberToString H n"
| "js_String H (JStr s) = s"
| "js_String H (JArr xs) =
     joinWith (asc '','')
       (map (\<lambda>x. if x = JUndefined \<or> x = JNull then [] else js_String H x) xs)"
| "js_String H (JObj kvs) = asc ''[object Object]''"

text \<open>
  \<open>String\<close> raises \<open>TypeError\<close> on an object that has an own property \<open>toString\<close>:
  the property holds data and is not callable, and \<open>valueOf\<close>, own or inherited, gives
  no primitive value. The join of an array raises when the conversion of one of its
  elements does. On every other value \<open>String\<close> returns, and \<open>js_String\<close> is what it
  returns; \<open>js_ToString\<close> is \<open>String\<close> with its raising branch.
\<close>

datatype error = TypeError

fun stringRaises :: "jsval \<Rightarrow> bool" where
  "stringRaises (JObj kvs) = (map_of kvs (asc ''toString'') \<noteq> None)"
| "stringRaises (JArr xs) = list_ex (\<lambda>x. stringRaises x) xs"
| "stringRaises v = False"

definition js_ToString :: "host \<Rightarrow> jsval \<Rightarrow> error + jstring" where
  "js_ToString H v = (if stringRaises v then Inl TypeError else Inr (js_String H v))"

subsection \<open>\<open>JSON.stringify\<close>\<close>

text \<open>
  \<open>QuoteJSONString\<close>: a backslash (code unit 92) before the quote, the backslash and
  the short control escapes, a four-digit lower-case escape for the other control
  characters and for a surrogate that has no partner.
\<close>

definition hexDigit :: "nat \<Rightarrow> nat" where
  "hexDigit d = (if d < 10 then 48 + d else 87 + d)"

definition unicodeEscape :: "nat \<Rightarrow> jstring" where
  "unicodeEscape c =
     [92, 117] @ [hexDigit (c div 4096 mod 16), hexDigit (c div 256 mod 16),
                    hexDigit (c div 16 mod 16), hexDigit (c mod 16)]"

definition isLeadSurrogate :: "nat \<Rightarrow> bool" where
  "isLeadSurrogate c = (55296 \<le> c \<and> c \<le> 56319)"

definition isTrailSurrogate :: "nat \<Rightarrow> bool" where
  "isTrailSurrogate c = (56320 \<le> c \<and> c \<le> 57343)"

definition escapeUnit :: "nat \<Rightarrow> jstring" where
  "escapeUnit c =
     (if c = 8 then [92, 98] else if c = 9 then [92, 116]
      else if c = 10 then [92, 110] else if c = 12 then [92, 102]
      else if c = 13 then [92, 114] else if c = 34 then [92, 34]
      else if c = 92 then [92, 92]
      else if c < 32 \<or> isLeadSurrogate c \<or> isTrailSurrogate c then unicodeEscape c
      else [c])"

fun quoteUnits :: "jstring \<Rightarrow> jstring" where
  "quoteUnits [] = []"
| "quoteUnits [c] = escapeUnit c"
| "quoteUnits (c # d # ds) =
     (if isLeadSurrogate c \<and> isTrailSurrogate d then c # d # quoteUnits ds
      else escapeUnit c @ quoteUnits (d # ds))"

definition QuoteJSONString :: "jstring \<Rightarrow> jstring" where
  "QuoteJSONString s = [34] @ quoteUnits s @ [34]"

text \<open>
  \<open>JSON.stringify(v)\<close> with no replacer and no indentation. The result \<open>None\<close> is the
  value \<open>undefined\<close>, which \<open>JSON.stringify(undefined)\<close> returns without raising. A
  value built from these constructors has no cycle, no \<open>BigInt\<close> and no \<open>toJSON\<close>
  method, so the call does not raise.
\<close>

fun JSON_stringify :: "host \<Rightarrow> jsval \<Rightarrow> jstring option" where
  "JSON_stringify H JUndefined = None"
| "JSON_stringify H JNull = Some (asc ''null'')"
| "JSON_stringify H (JBool b) = Some (if b then asc ''true'' else asc ''false'')"
| "JSON_stringify H (JNum n) = Some (if isFinite n then numberToString H n else asc ''null'')"
| "JSON_stringify H (JStr s) = Some (QuoteJSONString s)"
| "JSON_stringify H (JArr xs) =
     Some (asc ''['' @
           joinWith (asc '','')
             (map (\<lambda>x. case JSON_stringify H x of None \<Rightarrow> asc ''null'' | Some s \<Rightarrow> s) xs)
           @ asc '']'')"
| "JSON_stringify H (JObj kvs) =
     Some (asc ''{'' @
           joinWith (asc '','')
             (concat (map (\<lambda>kv. case JSON_stringify H (snd kv) of
                                   None \<Rightarrow> []
                                 | Some s \<Rightarrow> [QuoteJSONString (fst kv) @ asc '':'' @ s]) kvs))
           @ asc ''}'')"


section \<open>Configuration\<close>

record soft_trim_config =
  max_chars :: jsnum
  head_chars :: jsnum
  tail_chars :: jsnum

text \<open>
  \<open>EasyPruningConfig\<close>. The two fields that \<open>normalizeConfig\<close> copies without a check
  (\<open>skip_tools_with_images\<close>, read only for its truthiness, and the optional
  \<open>compaction_threshold_hint\<close>) and the input-only alias \<open>keep_rencent_message\<close> hold
  whatever value the input gave them.
\<close>

record config =
  pruning_threshold :: jsnum
  trigger_every_n_tokens :: jsnum
  keep_recent_tokens :: jsnum
  keep_recent_messages :: jsnum
  keep_rencent_message :: jsval
  soft_threshold :: jsnum
  hard_threshold :: jsnum
  detail_threshold :: jsnum
  soft_trim :: soft_trim_config
  hard_clear_placeholder :: jstring
  detail_placeholder :: jstring
  skip_tools_with_images :: jsval
  compaction_threshold_hint :: jsval

section \<open>Token estimator\<close>

definition TOKENS_PER_CHAR_ESTIMATE :: nat where
  "TOKENS_PER_CHAR_ESTIMATE = 4"

fun estimateUnknownChars :: "host \<Rightarrow> jsval \<Rightarrow> nat" where
  "estimateUnknownChars H JUndefined = 0"
| "estimateUnknownChars H JNull = 0"
| "estimateUnknownChars H (JStr s) = length s"
| "estimateUnknownChars H (JNum n) = length (js_String H (JNum n))"
| "estimateUnknownChars H (JBool b) = length (js_String H (JBool b))"
| "estimateUnknownChars H (JArr xs) =
     foldl (\<lambda>sum item. sum + estimateUnknownChars H item) 0 xs"
| "estimateUnknownChars H (JObj kvs) =
     (case JSON_stringify H (JObj kvs) of Some s \<Rightarrow> length s | None \<Rightarrow> 128)"

definition estimateMessageTokens :: "host \<Rightarrow> jsval \<Rightarrow> nat" where
  "estimateMessageTokens H message =
     (let roleWeight = (case getProp message (asc ''role'') of JStr r \<Rightarrow> length r | _ \<Rightarrow> 0);
          contentWeight = estimateUnknownChars H (getProp message (asc ''content''));
          chars = roleWeight + contentWeight + 16
      in nat \<lceil>rat_of_nat chars / rat_of_nat TOKENS_PER_CHAR_ESTIMATE\<rceil>)"

definition estimateContextTokens :: "host \<Rightarrow> jsval list \<Rightarrow> nat" where
  "estimateContextTokens H messages =
     foldl (\<lambda>sum raw. if \<not> is_object raw then sum else sum + estimateMessageTokens H raw)
       0 messages"

section \<open>Zones\<close>

datatype MessageZone = Zone_none | Zone_soft | Zone_hard | Zone_detail

text \<open>
  \<open>resolveThresholdToToken\<close>. For a fraction the source floors the product
  \<open>totalTokens * value\<close> as binary64 computes it, which is the host's \<open>floatProduct\<close>.
\<close>

fun resolveThresholdToToken :: "host \<Rightarrow> jsnum \<Rightarrow> nat \<Rightarrow> int" where
  "resolveThresholdToToken H (Fin v) totalTokens =
     (if v < 0 then 0
      else if v < 1 then \<lfloor>floatProduct H totalTokens v\<rfloor>
      else min (int totalTokens) \<lfloor>v\<rfloor>)"
| "resolveThresholdToToken H _ totalTokens = 0"

text \<open>
  The three boundaries of \<open>applyPruningWithStats\<close>, resolved and then put in order
  (\<open>softStart\<close>, \<open>hardStart\<close>, \<open>detailStart\<close>).
\<close>

definition zoneStarts :: "host \<Rightarrow> config \<Rightarrow> nat \<Rightarrow> int \<times> int \<times> int" where
  "zoneStarts H cfg totalTokens =
     (let softStart = resolveThresholdToToken H (soft_threshold cfg) totalTokens;
          hardStart0 = resolveThresholdToToken H (hard_threshold cfg) totalTokens;
          detailStart0 = resolveThresholdToToken H (detail_threshold cfg) totalTokens;
          hardStart = (if hardStart0 < softStart then softStart else hardStart0);
          detailStart = (if detailStart0 < hardStart then hardStart else detailStart0)
      in (softStart, hardStart, detailStart))"

definition resolveZone :: "rat \<Rightarrow> int \<Rightarrow> int \<Rightarrow> int \<Rightarrow> MessageZone" where
  "resolveZone tokenMid softStart hardStart detailStart =
     (if tokenMid < of_int softStart then Zone_none
      else if tokenMid < of_int hardStart then Zone_soft
      else if tokenMid < of_int detailStart then Zone_hard
      else Zone_detail)"

section \<open>Degradation strategies\<close>

text \<open>
  A strategy either returns the message it was given, the same reference (\<open>Same\<close>), or
  a newly allocated object (\<open>Fresh\<close>): the orchestrator tells the two apart with
  \<open>next !== original\<close>, and a new object is never identical to an old one, whatever
  it holds. Reading \<open>.length\<close> or calling a method on \<open>undefined\<close> raises
  \<open>TypeError\<close>, and so does \<open>String\<close> on a role or on a type tag that it cannot
  convert.
\<close>

datatype outcome = Same | Fresh jsval

text \<open>
  \<open>String(message.role ?? "")\<close>; the timeline builder computes the role the same way.
  \<open>roleRaises\<close> holds when the conversion raises, and \<open>roleOf\<close> is the role when it
  does not.
\<close>

definition roleRaises :: "jsval \<Rightarrow> bool" where
  "roleRaises message = stringRaises (getProp message (asc ''role''))"

definition roleOf :: "host \<Rightarrow> jsval \<Rightarrow> jstring" where
  "roleOf H message =
     (let r = getProp message (asc ''role'')
      in js_String H (if r = JUndefined \<or> r = JNull then JStr [] else r))"

definition textBlock :: "jstring \<Rightarrow> jsval" where
  "textBlock text = JObj [(asc ''type'', JStr (asc ''text'')), (asc ''text'', JStr text)]"

definition isToolResultRole :: "jstring \<Rightarrow> bool" where
  "isToolResultRole r = (r = asc ''tool_result'' \<or> r = asc ''toolResult'')"

definition isAssistantRole :: "jstring \<Rightarrow> bool" where
  "isAssistantRole r = (r = asc ''assistant'')"

text \<open>
  \<open>hasImageContent\<close>. \<open>content.some\<close> asks the items in order and stops at the first
  that has an image or raises; \<open>String(c.type ?? "")\<close> raises on a type tag that it
  cannot convert.
\<close>

fun hasImageContent :: "host \<Rightarrow> jsval \<Rightarrow> error + bool"
  and someHasImage :: "host \<Rightarrow> jsval list \<Rightarrow> error + bool" where
  "hasImageContent H (JStr s) =
     (let lower = toLowerCase H s
      in Inr (str_includes lower (asc ''data:image'') \<or> str_includes lower (asc ''.png'')
              \<or> str_includes lower (asc ''.jpg'')))"
| "hasImageContent H (JArr xs) = someHasImage H xs"
| "hasImageContent H (JObj kvs) =
     (let c = JObj kvs;
          ty = getProp c (asc ''type'');
          tag = (if ty = JUndefined \<or> ty = JNull then JStr [] else ty)
      in if stringRaises tag then Inl TypeError
         else
           let t = toLowerCase H (js_String H tag)
           in if str_includes t (asc ''image'') then Inr True
              else if truthy (getProp c (asc ''image'')) \<or> truthy (getProp c (asc ''images''))
              then Inr True
              else (case getProp c (asc ''url'') of
                      JStr u \<Rightarrow> Inr (str_includes (toLowerCase H u) (asc ''image''))
                    | _ \<Rightarrow> Inr False))"
| "hasImageContent H JUndefined = Inr False"
| "hasImageContent H JNull = Inr False"
| "hasImageContent H (JBool b) = Inr False"
| "hasImageContent H (JNum n) = Inr False"
| "someHasImage H [] = Inr False"
| "someHasImage H (item # rest) =
     (case hasImageContent H item of
        Inl e \<Rightarrow> Inl e
      | Inr found \<Rightarrow> if found then Inr True else someHasImage H rest)"

text \<open>
  \<open>toUnifiedText\<close>. For a content that is neither a string nor an array the result is
  that of \<open>JSON.stringify\<close>, which is \<open>undefined\<close> (\<open>None\<close>) for the content
  \<open>undefined\<close>; the \<open>catch\<close> branch is not reached, as \<open>JSON.stringify\<close> does not
  raise on these values.
\<close>

definition unifiedPart :: "jsval \<Rightarrow> jstring list" where
  "unifiedPart block =
     (case block of
        JStr s \<Rightarrow> [s]
      | JObj kvs \<Rightarrow>
          (if getProp block (asc ''type'') = JStr (asc ''text'')
           then (case getProp block (asc ''text'') of JStr t \<Rightarrow> [t] | _ \<Rightarrow> [])
           else [])
      | _ \<Rightarrow> [])"

definition toUnifiedText :: "host \<Rightarrow> jsval \<Rightarrow> jstring option" where
  "toUnifiedText H content =
     (case content of
        JStr s \<Rightarrow> Some s
      | JArr blocks \<Rightarrow> Some (joinWith [10] (concat (map unifiedPart blocks)))
      | _ \<Rightarrow> JSON_stringify H content)"

definition preserveContentShape :: "jsval \<Rightarrow> jstring \<Rightarrow> jsval" where
  "preserveContentShape original text =
     (case original of
        JStr s \<Rightarrow> JStr text
      | JArr xs \<Rightarrow> JArr [textBlock text]
      | _ \<Rightarrow> JStr text)"

text \<open>
  The object literal \<open>{ ...message, content: v }\<close>: the own properties of the message
  in their order, with \<open>content\<close> replaced where it stands or added at the end. An
  array spreads its elements under their indices.
\<close>

definition spreadProps :: "jsval \<Rightarrow> (jstring \<times> jsval) list" where
  "spreadProps v =
     (case v of
        JObj kvs \<Rightarrow> kvs
      | JArr xs \<Rightarrow> zip (map decimal [0..<length xs]) xs
      | JStr s \<Rightarrow> zip (map decimal [0..<length s]) (map (\<lambda>c. JStr [c]) s)
      | _ \<Rightarrow> [])"

definition withContent :: "jsval \<Rightarrow> jsval \<Rightarrow> jsval" where
  "withContent message v = JObj (AList.update (asc ''content'') v (spreadProps message))"

definition markers :: "jstring list" where
  "markers =
     [asc ''Final Answer:'', asc ''Final:'', asc ''Summary:'', asc ''Conclusion:'',
      asc ''Answer:'', asc ''Result:'', asc ''Output:'',
      [26368, 32456, 32467, 35770], [24635, 32467], [32467, 35770]]"

text \<open>The marker loop of \<open>extractFinalSummary\<close>, then its paragraph fallback.\<close>

fun markerSummary :: "jstring \<Rightarrow> jstring list \<Rightarrow> jstring option" where
  "markerSummary text [] = None"
| "markerSummary text (marker # rest) =
     (let idx = lastIndexOf text marker
      in if idx \<noteq> - 1 then
           (let sliced = trim (slice text (Fin (of_int idx)) None)
            in if length sliced > 0 then Some sliced else markerSummary text rest)
         else markerSummary text rest)"

definition extractFinalSummary :: "jstring \<Rightarrow> jstring option" where
  "extractFinalSummary text =
     (case markerSummary text markers of
        Some sliced \<Rightarrow> Some sliced
      | None \<Rightarrow>
          (let paras = filter (\<lambda>p. p \<noteq> []) (map trim (splitBlank [] text))
           in if length paras = 0 then None
              else if length (last paras) > 0 then Some (last paras) else None))"

text \<open>
  The guard \<open>config.skip_tools_with_images && hasImageContent(message.content)\<close> of
  the three strategies. A message is image-skipped when the guard does not let it
  through to the pruning, and is not image-skipped when the flag is falsy or the
  detection returns false.
\<close>

definition imageGuard :: "host \<Rightarrow> config \<Rightarrow> jsval \<Rightarrow> error + bool" where
  "imageGuard H config message =
     (if truthy (skip_tools_with_images config)
      then hasImageContent H (getProp message (asc ''content''))
      else Inr False)"

definition imageSkipped :: "host \<Rightarrow> config \<Rightarrow> jsval \<Rightarrow> bool" where
  "imageSkipped H config message = (imageGuard H config message \<noteq> Inr False)"

definition softText :: "config \<Rightarrow> jstring \<Rightarrow> jstring" where
  "softText config raw =
     (let head = slice raw (Fin 0) (Some (Math_max (Fin 0) (head_chars (soft_trim config))));
          tail = slice raw
                   (Math_max (Fin 0)
                      (js_sub (Fin (of_nat (length raw)))
                         (Math_max (Fin 0) (tail_chars (soft_trim config)))))
                   None
      in head @ [10, 10] @ asc ''... (truncated)'' @ [10, 10] @ asc ''[Original size: ''
         @ decimal (length raw) @ asc '' characters]'' @ [10] @ tail)"

definition applySoftPruning :: "host \<Rightarrow> jsval \<Rightarrow> config \<Rightarrow> error + outcome" where
  "applySoftPruning H message config =
     (if roleRaises message then Inl TypeError
      else if \<not> isToolResultRole (roleOf H message) then Inr Same
      else
        (case imageGuard H config message of
           Inl e \<Rightarrow> Inl e
         | Inr skip \<Rightarrow>
             if skip then Inr Same
             else
               (case toUnifiedText H (getProp message (asc ''content'')) of
                  None \<Rightarrow> Inl TypeError
                | Some raw \<Rightarrow>
                    if js_le (Fin (of_nat (length raw))) (max_chars (soft_trim config))
                    then Inr Same
                    else Inr (Fresh (withContent message
                                (preserveContentShape (getProp message (asc ''content''))
                                   (softText config raw)))))))"

definition applyHardPruning :: "host \<Rightarrow> jsval \<Rightarrow> config \<Rightarrow> error + outcome" where
  "applyHardPruning H message config =
     (if roleRaises message then Inl TypeError
      else if \<not> isToolResultRole (roleOf H message) then Inr Same
      else
        (case imageGuard H config message of
           Inl e \<Rightarrow> Inl e
         | Inr skip \<Rightarrow>
             if skip then Inr Same
             else Inr (Fresh (withContent message
                         (preserveContentShape (getProp message (asc ''content''))
                            (hard_clear_placeholder config))))))"

definition isTextBlock :: "jsval \<Rightarrow> bool" where
  "isTextBlock block =
     (is_object block \<and> getProp block (asc ''type'') = JStr (asc ''text'')
      \<and> (case getProp block (asc ''text'') of JStr t \<Rightarrow> True | _ \<Rightarrow> False))"

definition detailPrefix :: jstring where
  "detailPrefix = asc ''[Process details pruned]'' @ [10, 10]"

definition applyDetailPruning :: "host \<Rightarrow> jsval \<Rightarrow> config \<Rightarrow> error + outcome" where
  "applyDetailPruning H message config =
     (let role = roleOf H message; content = getProp message (asc ''content'')
      in if roleRaises message then Inl TypeError
         else if role = asc ''user'' \<or> role = asc ''system'' then Inr Same
         else if isAssistantRole role then
           (case content of
              JStr s \<Rightarrow> Inr Same
            | JArr blocks \<Rightarrow>
                (let textBlocks = filter isTextBlock blocks
                 in if length textBlocks > 0
                    then Inr (Fresh (withContent message (JArr textBlocks)))
                    else Inr (Fresh (withContent message
                                (JArr [textBlock (detail_placeholder config)]))))
            | _ \<Rightarrow> Inr (Fresh (withContent message (JStr (detail_placeholder config)))))
         else if isToolResultRole role then
           (case imageGuard H config message of
              Inl e \<Rightarrow> Inl e
            | Inr skip \<Rightarrow>
                if skip then Inr Same
                else
                  (case toUnifiedText H content of
                     None \<Rightarrow> Inl TypeError
                   | Some unified \<Rightarrow>
                       (case extractFinalSummary unified of
                          Some summary \<Rightarrow>
                            if summary \<noteq> []
                            then Inr (Fresh (withContent message
                                        (preserveContentShape content (detailPrefix @ summary))))
                            else Inr (Fresh (withContent message
                                        (preserveContentShape content
                                           (detail_placeholder config))))
                        | None \<Rightarrow>
                            Inr (Fresh (withContent message
                                   (preserveContentShape content
                                      (detail_placeholder config)))))))
         else Inr Same)"

text \<open>
  \<open>createStrategies\<close>: the table from zone name to strategy. It has no entry for
  \<open>none\<close>; a strategy is its \<open>apply\<close> function, the \<open>name\<close> field is not read.
\<close>

type_synonym strategy = "jsval \<Rightarrow> error + outcome"

definition createStrategies :: "host \<Rightarrow> config \<Rightarrow> (MessageZone \<rightharpoonup> strategy)" where
  "createStrategies H config =
     [Zone_soft \<mapsto> (\<lambda>message. applySoftPruning H message config),
      Zone_hard \<mapsto> (\<lambda>message. applyHardPruning H message config),
      Zone_detail \<mapsto> (\<lambda>message. applyDetailPruning H message config)]"

section \<open>Timeline\<close>

record MessageMeta =
  index :: nat
  message :: jsval
  role :: jstring
  tokenCount :: nat
  tokenStart :: nat
  tokenEnd :: nat
  tokenMid :: rat

text \<open>
  The loop of \<open>buildMessageMeta\<close>, from index \<open>i\<close> with the token cursor \<open>cursor\<close>.
  The loop raises when \<open>String\<close> raises on the role of a message object; that branch
  is the first of \<open>applyPruningWithStats\<close> below, which does nothing before it builds
  the timeline, and \<open>buildMessageMeta\<close> is the timeline of a list on which the loop
  returns.
\<close>

fun buildMessageMeta_from :: "host \<Rightarrow> nat \<Rightarrow> nat \<Rightarrow> jsval list \<Rightarrow> MessageMeta list" where
  "buildMessageMeta_from H i cursor [] = []"
| "buildMessageMeta_from H i cursor (raw # rest) =
     (if \<not> is_object raw then buildMessageMeta_from H (Suc i) cursor rest
      else
        let tokenCount = max 1 (estimateMessageTokens H raw);
            tokenStart = cursor;
            tokenEnd = tokenStart + tokenCount;
            tokenMid = rat_of_nat tokenStart + rat_of_nat tokenCount / 2
        in \<lparr>index = i, message = raw, role = roleOf H raw, tokenCount = tokenCount,
            tokenStart = tokenStart, tokenEnd = tokenEnd, tokenMid = tokenMid\<rparr>
           # buildMessageMeta_from H (Suc i) tokenEnd rest)"

definition buildMessageMeta :: "host \<Rightarrow> jsval list \<Rightarrow> MessageMeta list" where
  "buildMessageMeta H messages = buildMessageMeta_from H 0 0 messages"

section \<open>Pruning orchestrator\<close>

record ZoneCounts =
  soft :: nat
  hard :: nat
  detail :: nat

record PruningStats =
  contextTokensBefore :: nat
  contextTokensAfter :: nat
  deletedTokens :: nat
  totalMessages :: nat
  protectedMessages :: nat
  changedMessages :: nat
  zoneChanged :: ZoneCounts
  zoneDeletedTokens :: ZoneCounts

text \<open>\<open>counts[zone] += n\<close>; the loop never reaches it with the zone \<open>none\<close>.\<close>

fun addZone :: "MessageZone \<Rightarrow> nat \<Rightarrow> ZoneCounts \<Rightarrow> ZoneCounts" where
  "addZone Zone_soft n c = c\<lparr>soft := soft c + n\<rparr>"
| "addZone Zone_hard n c = c\<lparr>hard := hard c + n\<rparr>"
| "addZone Zone_detail n c = c\<lparr>detail := detail c + n\<rparr>"
| "addZone Zone_none n c = c"

text \<open>The first loop over the metadata: the set \<open>protectedIndices\<close>.\<close>

definition protectStep :: "jsnum \<Rightarrow> jsnum \<Rightarrow> MessageMeta \<Rightarrow> nat set \<Rightarrow> nat set" where
  "protectStep keepRecentMessageStartIndex keepRecentStartToken meta protectedIndices =
     (if role meta = asc ''user'' \<or> role meta = asc ''system''
      then insert (index meta) protectedIndices
      else if js_ge (Fin (of_nat (index meta))) keepRecentMessageStartIndex
      then insert (index meta) protectedIndices
      else if js_ge (Fin (of_nat (tokenStart meta))) keepRecentStartToken
      then insert (index meta) protectedIndices
      else protectedIndices)"

definition protectedIndicesOf :: "jsnum \<Rightarrow> jsnum \<Rightarrow> MessageMeta list \<Rightarrow> nat set" where
  "protectedIndicesOf keepRecentMessageStartIndex keepRecentStartToken metas =
     fold (protectStep keepRecentMessageStartIndex keepRecentStartToken) metas {}"

text \<open>
  \<open>Math.max(0, totalTokens - config.keep_recent_tokens)\<close> and
  \<open>Math.max(0, messages.length - config.keep_recent_messages)\<close>.
\<close>

definition keepRecentStartTokenOf :: "config \<Rightarrow> nat \<Rightarrow> jsnum" where
  "keepRecentStartTokenOf config totalTokens =
     Math_max (Fin 0) (js_sub (Fin (of_nat totalTokens)) (keep_recent_tokens config))"

definition keepRecentMessageStartIndexOf :: "config \<Rightarrow> nat \<Rightarrow> jsnum" where
  "keepRecentMessageStartIndexOf config n =
     Math_max (Fin 0) (js_sub (Fin (of_nat n)) (keep_recent_messages config))"

text \<open>
  The second loop. Its state is the working copy \<open>out\<close>, the flag \<open>changed\<close> and the
  statistics. A slot of \<open>out\<close> is \<open>Same\<close> while it holds the entry of the input list
  (\<open>messages.slice()\<close> copies the references) and \<open>Fresh next\<close> once a strategy's new
  object has been stored there. An exception raised by a strategy ends the call.
\<close>

fun pruneLoop ::
  "host \<Rightarrow> (MessageZone \<rightharpoonup> strategy) \<Rightarrow> nat set \<Rightarrow> jsnum \<Rightarrow> int \<times> int \<times> int \<Rightarrow>
   MessageMeta list \<Rightarrow> outcome list \<times> bool \<times> PruningStats \<Rightarrow>
   error + outcome list \<times> bool \<times> PruningStats" where
  "pruneLoop H strategies protectedIndices prunableEndToken starts [] st = Inr st"
| "pruneLoop H strategies protectedIndices prunableEndToken starts (meta # rest) (out, changed, stats) =
     (if index meta \<in> protectedIndices
      then pruneLoop H strategies protectedIndices prunableEndToken starts rest (out, changed, stats)
      else if js_ge (Fin (tokenMid meta)) prunableEndToken
      then pruneLoop H strategies protectedIndices prunableEndToken starts rest (out, changed, stats)
      else
        (case starts of (softStart, hardStart, detailStart) \<Rightarrow>
           let zone = resolveZone (tokenMid meta) softStart hardStart detailStart
           in if zone = Zone_none
              then pruneLoop H strategies protectedIndices prunableEndToken starts rest
                     (out, changed, stats)
              else
                (case strategies zone of
                   None \<Rightarrow> Inl TypeError
                 | Some apply \<Rightarrow>
                     (case apply (message meta) of
                        Inl e \<Rightarrow> Inl e
                      | Inr Same \<Rightarrow>
                          pruneLoop H strategies protectedIndices prunableEndToken starts rest
                            (out, changed, stats)
                      | Inr (Fresh next) \<Rightarrow>
                          let tokensBefore = estimateMessageTokens H (message meta);
                              tokensAfter = estimateMessageTokens H next;
                              delta = nat (max 0 (int tokensBefore - int tokensAfter))
                          in pruneLoop H strategies protectedIndices prunableEndToken starts rest
                               (out[index meta := Fresh next], True,
                                stats\<lparr>changedMessages := changedMessages stats + 1,
                                       zoneChanged := addZone zone 1 (zoneChanged stats),
                                       zoneDeletedTokens :=
                                         addZone zone delta (zoneDeletedTokens stats)\<rparr>)))))"

text \<open>
  What one round of the second loop decides for its metadata entry: to go on to the
  next entry (\<open>Inr Same\<close>), to store a strategy's new object, or to raise.
\<close>

definition loopDecision ::
  "(MessageZone \<rightharpoonup> strategy) \<Rightarrow> nat set \<Rightarrow> jsnum \<Rightarrow> int \<times> int \<times> int \<Rightarrow> MessageMeta \<Rightarrow>
   error + outcome" where
  "loopDecision strategies protectedIndices prunableEndToken starts meta =
     (if index meta \<in> protectedIndices then Inr Same
      else if js_ge (Fin (tokenMid meta)) prunableEndToken then Inr Same
      else
        (case starts of (softStart, hardStart, detailStart) \<Rightarrow>
           let zone = resolveZone (tokenMid meta) softStart hardStart detailStart
           in if zone = Zone_none then Inr Same
              else (case strategies zone of
                      None \<Rightarrow> Inl TypeError
                    | Some apply \<Rightarrow> apply (message meta))))"

text \<open>
  The list a call returns is the input array itself (\<open>InputArray\<close>) or the working
  copy (\<open>NewArray\<close>); \<open>returnedSlots\<close> tells for each index whether the entry is the
  one of the input, and \<open>returnedList\<close> reads the entries.
\<close>

datatype returned = InputArray | NewArray "outcome list"

definition returnedSlots :: "jsval list \<Rightarrow> returned \<Rightarrow> outcome list" where
  "returnedSlots messages r =
     (case r of InputArray \<Rightarrow> replicate (length messages) Same | NewArray out \<Rightarrow> out)"

definition slotValue :: "jsval \<Rightarrow> outcome \<Rightarrow> jsval" where
  "slotValue original slot = (case slot of Same \<Rightarrow> original | Fresh next \<Rightarrow> next)"

definition returnedList :: "jsval list \<Rightarrow> returned \<Rightarrow> jsval list" where
  "returnedList messages r =
     (case r of InputArray \<Rightarrow> messages | NewArray out \<Rightarrow> map2 slotValue messages out)"

definition applyPruningWithStats ::
  "host \<Rightarrow> jsval list \<Rightarrow> config \<Rightarrow> (MessageZone \<rightharpoonup> strategy) \<Rightarrow> error + returned \<times> PruningStats" where
  "applyPruningWithStats H messages config strategies =
     (if list_ex (\<lambda>raw. is_object raw \<and> roleRaises raw) messages then Inl TypeError
      else
      let metas = buildMessageMeta H messages;
          beforeTokens = (if length metas > 0 then tokenEnd (last metas) else 0);
          emptyStats = \<lparr>contextTokensBefore = beforeTokens, contextTokensAfter = beforeTokens,
                        deletedTokens = 0, totalMessages = length messages,
                        protectedMessages = 0, changedMessages = 0,
                        zoneChanged = \<lparr>soft = 0, hard = 0, detail = 0\<rparr>,
                        zoneDeletedTokens = \<lparr>soft = 0, hard = 0, detail = 0\<rparr>\<rparr>
      in if length metas = 0 then Inr (InputArray, emptyStats)
         else
           let totalTokens = tokenEnd (last metas);
               keepRecentStartToken = keepRecentStartTokenOf config totalTokens;
               keepRecentMessageStartIndex =
                 keepRecentMessageStartIndexOf config (length messages);
               protectedIndices =
                 protectedIndicesOf keepRecentMessageStartIndex keepRecentStartToken metas;
               starts = zoneStarts H config totalTokens;
               prunableEndToken = keepRecentStartToken;
               stats0 = emptyStats\<lparr>protectedMessages := card protectedIndices\<rparr>
           in (case pruneLoop H strategies protectedIndices prunableEndToken starts metas
                      (replicate (length messages) Same, False, stats0) of
                 Inl e \<Rightarrow> Inl e
               | Inr (out, changed, stats) \<Rightarrow>
                   if \<not> changed then Inr (InputArray, stats)
                   else
                     let afterTokens = estimateContextTokens H (map2 slotValue messages out)
                     in Inr (NewArray out,
                             stats\<lparr>contextTokensAfter := afterTokens,
                                    deletedTokens :=
                                      nat (max 0 (int (contextTokensBefore stats)
                                                  - int afterTokens))\<rparr>)))"

text \<open>
  The values that the local variables \<open>totalTokens\<close> and \<open>protectedIndices\<close> of
  \<open>applyPruningWithStats\<close> take for a list with at least one message object.
\<close>

definition totalTokensOf :: "host \<Rightarrow> jsval list \<Rightarrow> nat" where
  "totalTokensOf H messages = tokenEnd (last (buildMessageMeta H messages))"

definition protectedOf :: "host \<Rightarrow> config \<Rightarrow> jsval list \<Rightarrow> nat set" where
  "protectedOf H config messages =
     protectedIndicesOf (keepRecentMessageStartIndexOf config (length messages))
       (keepRecentStartTokenOf config (totalTokensOf H messages))
       (buildMessageMeta H messages)"

definition applyPruning ::
  "host \<Rightarrow> jsval list \<Rightarrow> config \<Rightarrow> (MessageZone \<rightharpoonup> strategy) \<Rightarrow> error + returned" where
  "applyPruning H messages config strategies =
     (case applyPruningWithStats H messages config strategies of
        Inl e \<Rightarrow> Inl e
      | Inr (r, stats) \<Rightarrow> Inr r)"

section \<open>Trigger and cooldown gate\<close>

record SessionTriggerState =
  lastTriggerTokenCount :: nat
  lastTriggeredAt :: nat
  pruneCount :: nat

record HookContext =
  sessionKey :: "jstring option"
  sessionId :: "jstring option"

text \<open>\<open>ctx.sessionKey || ctx.sessionId || "__global__"\<close>: an empty string is falsy.\<close>

definition sessionKeyOf :: "HookContext \<Rightarrow> jstring" where
  "sessionKeyOf ctx =
     (case sessionKey ctx of
        Some k \<Rightarrow> if k \<noteq> [] then k
                  else (case sessionId ctx of
                          Some i \<Rightarrow> if i \<noteq> [] then i else asc ''__global__''
                        | None \<Rightarrow> asc ''__global__'')
      | None \<Rightarrow> (case sessionId ctx of
                   Some i \<Rightarrow> if i \<noteq> [] then i else asc ''__global__''
                 | None \<Rightarrow> asc ''__global__''))"

text \<open>\<open>sessionState.get(key) ?? { lastTriggerTokenCount: 0, lastTriggeredAt: 0, pruneCount: 0 }\<close>.\<close>

definition stateOrInitial ::
  "(jstring \<rightharpoonup> SessionTriggerState) \<Rightarrow> jstring \<Rightarrow> SessionTriggerState" where
  "stateOrInitial sessionState key =
     (case sessionState key of
        Some st \<Rightarrow> st
      | None \<Rightarrow> \<lparr>lastTriggerTokenCount = 0, lastTriggeredAt = 0, pruneCount = 0\<rparr>)"

text \<open>
  \<open>sameArrayShallow(messages, result.messages)\<close> compares entry by entry with
  \<open>!==\<close>. An entry of the input compared with itself differs only when it is the
  number NaN; a strategy's new object differs from every entry of the input.
\<close>

definition strictlyEqualSlot :: "jsval \<Rightarrow> outcome \<Rightarrow> bool" where
  "strictlyEqualSlot original slot =
     (case slot of Same \<Rightarrow> original \<noteq> JNum NaN | Fresh next \<Rightarrow> False)"

definition sameArrayShallow :: "jsval list \<Rightarrow> returned \<Rightarrow> bool" where
  "sameArrayShallow messages r =
     (let slots = returnedSlots messages r
      in if length messages \<noteq> length slots then False
         else list_all (\<lambda>(a, b). strictlyEqualSlot a b) (zip messages slots))"

text \<open>
  The handler that \<open>createBeforeAgentStartHandler\<close> returns, with the session table
  and the clock made explicit. It returns the new session table, the contents of
  \<open>event.messages\<close> after the call and the point at which it returned. On the prune
  path the list is emptied and refilled from \<open>result.messages\<close>, read after the
  emptying: when that is the input array itself, nothing is refilled.
\<close>

datatype gate_exit = NoMessages | BelowThreshold | Cooldown | NoEligible | Pruned

definition createBeforeAgentStartHandler ::
  "host \<Rightarrow> config \<Rightarrow> (jstring \<rightharpoonup> SessionTriggerState) \<Rightarrow> nat \<Rightarrow> jsval list option \<Rightarrow>
   HookContext \<Rightarrow>
   error + (jstring \<rightharpoonup> SessionTriggerState) \<times> jsval list option \<times> gate_exit" where
  "createBeforeAgentStartHandler H config sessionState now eventMessages ctx =
     (case eventMessages of
        None \<Rightarrow> Inr (sessionState, eventMessages, NoMessages)
      | Some messages \<Rightarrow>
          if length messages = 0 then Inr (sessionState, eventMessages, NoMessages)
          else
            let totalTokens = estimateContextTokens H messages;
                key = sessionKeyOf ctx
            in if js_lt (Fin (of_nat totalTokens)) (pruning_threshold config)
               then Inr (sessionState, eventMessages, BelowThreshold)
               else
                 let state = stateOrInitial sessionState key;
                     tokensSinceLast = max 0 (int totalTokens - int (lastTriggerTokenCount state))
                 in if pruneCount state > 0
                       \<and> js_lt (Fin (of_int tokensSinceLast)) (trigger_every_n_tokens config)
                    then Inr (sessionState, eventMessages, Cooldown)
                    else
                      (case applyPruningWithStats H messages config (createStrategies H config) of
                         Inl e \<Rightarrow> Inl e
                       | Inr (resultMessages, stats) \<Rightarrow>
                           let changed = \<not> sameArrayShallow messages resultMessages;
                               state' = state\<lparr>lastTriggerTokenCount := totalTokens,
                                              lastTriggeredAt := now,
                                              pruneCount := (if changed then pruneCount state + 1
                                                             else pruneCount state)\<rparr>;
                               sessionState' = sessionState(key \<mapsto> state')
                           in if \<not> changed then Inr (sessionState', eventMessages, NoEligible)
                              else Inr (sessionState',
                                        Some (case resultMessages of
                                                InputArray \<Rightarrow> []
                                              | NewArray out \<Rightarrow> map2 slotValue messages out),
                                        Pruned)))"

section \<open>Configuration normalization\<close>

text \<open>
  \<open>Number.isFinite\<close> is false for every value that is not a number, so a field of
  another type falls back as well.
\<close>

definition safePositiveInt :: "jsval \<Rightarrow> jsnum \<Rightarrow> jsnum" where
  "safePositiveInt v fallback =
     (case v of
        JNum n \<Rightarrow> if \<not> isFinite n \<or> js_le n (Fin 0) then fallback else Math_floor n
      | _ \<Rightarrow> fallback)"

definition safeNonNegativeNumber :: "jsval \<Rightarrow> jsnum \<Rightarrow> jsnum" where
  "safeNonNegativeNumber v fallback =
     (case v of
        JNum n \<Rightarrow> if \<not> isFinite n \<or> js_lt n (Fin 0) then fallback else n
      | _ \<Rightarrow> fallback)"

text \<open>
  The field \<open>k\<close> of \<open>{ ...defaults, ...input }\<close>, where \<open>d\<close> is the field of the
  defaults: an own property of the input wins, also when its value is \<open>undefined\<close>.
\<close>

definition spreadField :: "jsval \<Rightarrow> jstring \<Rightarrow> jsval \<Rightarrow> jsval" where
  "spreadField input k d = (case map_of (spreadProps input) k of Some v \<Rightarrow> v | None \<Rightarrow> d)"

definition nullish :: "jsval \<Rightarrow> bool" where
  "nullish v = (v = JUndefined \<or> v = JNull)"

text \<open>
  \<open>raw ?? {}\<close> and \<open>input.soft_trim ?? {}\<close>; the number that \<open>normalizeConfig\<close>
  takes for \<open>keep_recent_messages\<close> (the key, else its misspelt alias, else the
  default); and the value \<open>cfg.k || d\<close> that it converts to a placeholder.
\<close>

definition rawInput :: "jsval \<Rightarrow> jsval" where
  "rawInput raw = (if nullish raw then JObj [] else raw)"

definition softTrimInputOf :: "jsval \<Rightarrow> jsval" where
  "softTrimInputOf input =
     (if nullish (getProp input (asc ''soft_trim'')) then JObj []
      else getProp input (asc ''soft_trim''))"

definition keepRecentMessagesRawOf :: "config \<Rightarrow> jsval \<Rightarrow> jsnum" where
  "keepRecentMessagesRawOf defaults input =
     (case getProp input (asc ''keep_recent_messages'') of
        JNum n \<Rightarrow> n
      | _ \<Rightarrow> (case getProp input (asc ''keep_rencent_message'') of
                JNum n \<Rightarrow> n
              | _ \<Rightarrow> keep_recent_messages defaults))"

definition placeholderOf :: "jsval \<Rightarrow> jstring \<Rightarrow> jstring \<Rightarrow> jsval" where
  "placeholderOf input k d =
     (if truthy (spreadField input k (JStr d)) then spreadField input k (JStr d) else JStr d)"

text \<open>
  \<open>normalizeConfig\<close>. The two conversions \<open>String(cfg.k || d)\<close> are its only steps
  that can raise.
\<close>

definition normalizeConfig :: "host \<Rightarrow> config \<Rightarrow> jsval \<Rightarrow> error + config" where
  "normalizeConfig H defaults raw =
     (let input = rawInput raw;
          keepRecentMessagesRaw = keepRecentMessagesRawOf defaults input;
          softTrimInput = softTrimInputOf input
      in case js_ToString H (placeholderOf input (asc ''hard_clear_placeholder'')
                               (hard_clear_placeholder defaults)) of
           Inl e \<Rightarrow> Inl e
         | Inr hardPlaceholder \<Rightarrow>
        (case js_ToString H (placeholderOf input (asc ''detail_placeholder'')
                               (detail_placeholder defaults)) of
           Inl e \<Rightarrow> Inl e
         | Inr detailPlaceholder \<Rightarrow>
        Inr \<lparr>pruning_threshold =
            safePositiveInt
              (spreadField input (asc ''pruning_threshold'') (JNum (pruning_threshold defaults)))
              (pruning_threshold defaults),
          trigger_every_n_tokens =
            safePositiveInt
              (spreadField input (asc ''trigger_every_n_tokens'')
                 (JNum (trigger_every_n_tokens defaults)))
              (trigger_every_n_tokens defaults),
          keep_recent_tokens =
            safePositiveInt
              (spreadField input (asc ''keep_recent_tokens'') (JNum (keep_recent_tokens defaults)))
              (keep_recent_tokens defaults),
          keep_recent_messages = Math_max (Fin 0) (Math_floor keepRecentMessagesRaw),
          keep_rencent_message =
            spreadField input (asc ''keep_rencent_message'') (keep_rencent_message defaults),
          soft_threshold =
            safeNonNegativeNumber
              (spreadField input (asc ''soft_threshold'') (JNum (soft_threshold defaults)))
              (soft_threshold defaults),
          hard_threshold =
            safeNonNegativeNumber
              (spreadField input (asc ''hard_threshold'') (JNum (hard_threshold defaults)))
              (hard_threshold defaults),
          detail_threshold =
            safeNonNegativeNumber
              (spreadField input (asc ''detail_threshold'') (JNum (detail_threshold defaults)))
              (detail_threshold defaults),
          soft_trim =
            \<lparr>max_chars =
               safePositiveInt
                 (spreadField softTrimInput (asc ''max_chars'')
                    (JNum (max_chars (soft_trim defaults))))
                 (max_chars (soft_trim defaults)),
             head_chars =
               safePositiveInt
                 (spreadField softTrimInput (asc ''head_chars'')
                    (JNum (head_chars (soft_trim defaults))))
                 (head_chars (soft_trim defaults)),
             tail_chars =
               safePositiveInt
                 (spreadField softTrimInput (asc ''tail_chars'')
                    (JNum (tail_chars (soft_trim defaults))))
                 (tail_chars (soft_trim defaults))\<rparr>,
          hard_clear_placeholder = hardPlaceholder,
          detail_placeholder = detailPlaceholder,
          skip_tools_with_images =
            spreadField input (asc ''skip_tools_with_images'') (skip_tools_with_images defaults),
          compaction_threshold_hint =
            spreadField input (asc ''compaction_threshold_hint'')
              (compaction_threshold_hint defaults)\<rparr>))"

text \<open>
  A configuration object read as the input of another call: the object with these
  properties. Properties that are copied through without being read are left out of
  the record and of this object.
\<close>

definition configAsInput :: "config \<Rightarrow> jsval" where
  "configAsInput c =
     JObj [(asc ''pruning_threshold'', JNum (pruning_threshold c)),
           (asc ''trigger_every_n_tokens'', JNum (trigger_every_n_tokens c)),
           (asc ''keep_recent_tokens'', JNum (keep_recent_tokens c)),
           (asc ''keep_recent_messages'', JNum (keep_recent_messages c)),
           (asc ''keep_rencent_message'', keep_rencent_message c),
           (asc ''soft_threshold'', JNum (soft_threshold c)),
           (asc ''hard_threshold'', JNum (hard_threshold c)),
           (asc ''detail_threshold'', JNum (detail_threshold c)),
           (asc ''soft_trim'',
              JObj [(asc ''max_chars'', JNum (max_chars (soft_trim c))),
                    (asc ''head_chars'', JNum (head_chars (soft_trim c))),
                    (asc ''tail_chars'', JNum (tail_chars (soft_trim c)))]),
           (asc ''hard_clear_placeholder'', JStr (hard_clear_placeholder c)),
           (asc ''detail_placeholder'', JStr (detail_placeholder c)),
           (asc ''skip_tools_with_images'', skip_tools_with_images c),
           (asc ''compaction_threshold_hint'', compaction_threshold_hint c)]"









text \<open>The defaults of the plugin entry point (\<open>index.ts\<close>).\<close>

definition defaultConfig :: config where
  "defaultConfig =
     \<lparr>pruning_threshold = Fin 80000, trigger_every_n_tokens = Fin 5000,
      keep_recent_tokens = Fin 10000, keep_recent_messages = Fin 10,
      keep_rencent_message = JUndefined,
      soft_threshold = Fin (7 / 10), hard_threshold = Fin (85 / 100),
      detail_threshold = Fin (95 / 100),
      soft_trim = \<lparr>max_chars = Fin 4000, head_chars = Fin 1500, tail_chars = Fin 1500\<rparr>,
      hard_clear_placeholder = asc ''[Old tool result content cleared]'',
      detail_placeholder = asc ''[Detailed execution context pruned to save tokens]'',
      skip_tools_with_images = JBool True,
      compaction_threshold_hint = JUndefined\<rparr>"

section \<open>A host for concrete runs\<close>

text \<open>
  The concrete inputs below hold ASCII text, and the only numbers they print are whole
  numbers below \<open>10^21\<close>; the products they take are of a whole number below \<open>2^53\<close>
  and a fraction with a power of two as denominator, which binary64 computes without
  rounding. On these the three built-ins are: the lower-casing of the letters A to Z,
  the decimal digits of a whole number (\<open>NaN\<close>, \<open>Infinity\<close> and \<open>-Infinity\<close> for
  the other three values), and the exact product. This host is not meant for other
  inputs: it does not print a fraction or a number from \<open>10^21\<close> on as \<open>String\<close>
  does, and its product of 90 and the binary64 value nearest 0.7 is not the rounded one.
\<close>

definition asciiLower :: "jstring \<Rightarrow> jstring" where
  "asciiLower s = map (\<lambda>c. if 65 \<le> c \<and> c \<le> 90 then c + 32 else c) s"

fun wholeNumberToString :: "jsnum \<Rightarrow> jstring" where
  "wholeNumberToString (Fin q) =
     (if q < 0 then asc ''-'' @ decimal (nat \<lfloor>- q\<rfloor>) else decimal (nat \<lfloor>q\<rfloor>))"
| "wholeNumberToString NaN = asc ''NaN''"
| "wholeNumberToString PInf = asc ''Infinity''"
| "wholeNumberToString NInf = asc ''-Infinity''"

definition asciiHost :: host where
  "asciiHost =
     \<lparr>numberToString = wholeNumberToString, toLowerCase = asciiLower,
      floatProduct = (\<lambda>n v. of_nat n * v)\<rparr>"

text \<open>The configuration of the repository's test suite.\<close>

definition testDefaults :: config where
  "testDefaults =
     \<lparr>pruning_threshold = Fin 100, trigger_every_n_tokens = Fin 20,
      keep_recent_tokens = Fin 20, keep_recent_messages = Fin 2,
      keep_rencent_message = JUndefined,
      soft_threshold = Fin (3 / 10), hard_threshold = Fin (6 / 10),
      detail_threshold = Fin (85 / 100),
      soft_trim = \<lparr>max_chars = Fin 40, head_chars = Fin 10, tail_chars = Fin 10\<rparr>,
      hard_clear_placeholder = asc ''[CLEARED]'',
      detail_placeholder = asc ''[DETAIL_PRUNED]'',
      skip_tools_with_images = JBool True,
      compaction_threshold_hint = JUndefined\<rparr>"

definition mkMessage :: "string \<Rightarrow> jsval \<Rightarrow> jsval" where
  "mkMessage r content = JObj [(asc ''role'', JStr (asc r)), (asc ''content'', content)]"

text \<open>
  A history of five entries, the first of them not a message object, under a
  configuration that prunes from 20 tokens on, keeps the last message and the last 7
  tokens and has its soft and hard boundaries at token 8. Each message is estimated at 7 tokens, so the first tool
  result lies before the zones and the second in the hard zone.
\<close>

definition exampleMessages :: "jsval list" where
  "exampleMessages =
     [JStr (asc ''note''),
      mkMessage ''tool_result'' (JStr (asc ''a'')),
      mkMessage ''tool_result'' (JStr (asc ''x'')),
      mkMessage ''user'' (JStr (asc ''hello'')),
      mkMessage ''assistant'' (JStr (asc ''ok''))]"

definition exampleConfig :: config where
  "exampleConfig =
     testDefaults\<lparr>pruning_threshold := Fin 20,
                  keep_recent_tokens := Fin 7, keep_recent_messages := Fin 1,
                  soft_threshold := Fin 8, hard_threshold := Fin 8,
                  detail_threshold := Fin 1000\<rparr>"

definition exampleStats :: PruningStats where
  "exampleStats =
     \<lparr>contextTokensBefore = 28, contextTokensAfter = 30, deletedTokens = 0,
      totalMessages = 5, protectedMessages = 2, changedMessages = 1,
      zoneChanged = \<lparr>soft = 0, hard = 1, detail = 0\<rparr>,
      zoneDeletedTokens = \<lparr>soft = 0, hard = 0, detail = 0\<rparr>\<rparr>"

definition exampleOut :: "outcome list" where
  "exampleOut =
     [Same, Same, Fresh (mkMessage ''tool_result'' (JStr (asc ''[CLEARED]''))), Same, Same]"

text \<open>
  Two tool results of 60 and 50 characters, the first naming an image file, and a
  configuration whose three thresholds are in the inverse order.
\<close>

definition imageMessage :: jsval where
  "imageMessage = mkMessage ''tool_result'' (JStr (asc ''chart.png '' @ replicate 50 65))"

definition longMessage :: jsval where
  "longMessage = mkMessage ''tool_result'' (JStr (replicate 50 65))"

definition invertedConfig :: config where
  "invertedConfig =
     testDefaults\<lparr>soft_threshold := Fin (3 / 4), hard_threshold := Fin (1 / 2),
                  detail_threshold := Fin (1 / 4)\<rparr>"

text \<open>A tool result whose content is a block sequence.\<close>

definition blockMessage :: jsval where
  "blockMessage =
     mkMessage ''tool_result''
       (JArr [textBlock (asc ''rows: 3''), JObj [(asc ''type'', JStr (asc ''tool_use''))]])"

text \<open>
  A hook context, and a session table in which that session was last checked at 20
  tokens and has pruned once.
\<close>

definition exampleContext :: HookContext where
  "exampleContext = \<lparr>sessionKey = Some (asc ''s1''), sessionId = None\<rparr>"

definition cooledSessions :: "jstring \<rightharpoonup> SessionTriggerState" where
  "cooledSessions =
     [asc ''s1'' \<mapsto> \<lparr>lastTriggerTokenCount = 20, lastTriggeredAt = 1, pruneCount = 1\<rparr>]"

text \<open>
  A history of a NaN entry and three user messages (21 tokens by the handler's estimate),
  in which no message can be pruned, and the statistics of a pass over it.
\<close>

definition nanMessages :: "jsval list" where
  "nanMessages =
     [JNum NaN,
      mkMessage ''user'' (JStr (asc ''hello'')),
      mkMessage ''user'' (JStr (asc ''hello'')),
      mkMessage ''user'' (JStr (asc ''hello''))]"

definition nanStats :: PruningStats where
  "nanStats =
     \<lparr>contextTokensBefore = 21, contextTokensAfter = 21, deletedTokens = 0,
      totalMessages = 4, protectedMessages = 3, changedMessages = 0,
      zoneChanged = \<lparr>soft = 0, hard = 0, detail = 0\<rparr>,
      zoneDeletedTokens = \<lparr>soft = 0, hard = 0, detail = 0\<rparr>\<rparr>"

text \<open>
  Three tool results: one whose text holds two summary markers, one of two paragraphs
  and no marker, and one of white space only.
\<close>

definition priorityMessage :: jsval where
  "priorityMessage = mkMessage ''tool_result'' (JStr (asc ''Final: a Summary: b''))"

definition paragraphMessage :: jsval where
  "paragraphMessage =
     mkMessage ''tool_result'' (JStr (asc ''one'' @ [10, 32, 10] @ asc ''two ''))"

definition blankMessage :: jsval where
  "blankMessage = mkMessage ''tool_result'' (JStr [32, 10])"


definition exampleNormalized :: config where
  "exampleNormalized =
     defaultConfig\<lparr>pruning_threshold := Fin 90000, keep_recent_messages := Fin 7,
                    keep_rencent_message := JNum (Fin 7), hard_threshold := Fin (3 / 2),
                    hard_clear_placeholder := asc ''[gone]''\<rparr>"




section \<open>Properties of the strategies and of the orchestrator loop\<close>

lemma getProp_withContent: "getProp (withContent m v) (asc ''content'') = v"
  by (simp add: withContent_def update_conv')

lemma roleOf_string: "getProp m (asc ''role'') = JStr r \<Longrightarrow> roleOf H m = r"
  by (simp add: roleOf_def)

lemma user_system_not_tool:
  "\<not> isToolResultRole (asc ''user'')" "\<not> isToolResultRole (asc ''system'')"
  "\<not> isAssistantRole (asc ''user'')" "\<not> isAssistantRole (asc ''system'')"
  by (simp_all add: isToolResultRole_def isAssistantRole_def asc_def)

lemma string_role_not_raises: "getProp m (asc ''role'') = JStr s \<Longrightarrow> \<not> roleRaises m"
  by (simp add: roleRaises_def)

lemma set_joinWith: "x \<in> set xs \<Longrightarrow> set x \<subseteq> set (joinWith sep xs)"
  by (induction sep xs rule: joinWith.induct) auto

lemma raises_bracket: "stringRaises v \<Longrightarrow> 91 \<in> set (js_String H v)"
proof (induction v)
  case (JArr xs)
  let ?f = "\<lambda>x. if x = JUndefined \<or> x = JNull then [] else js_String H x"
  from JArr.prems obtain x where x: "x \<in> set xs" "stringRaises x"
    by (auto simp: list_ex_iff)
  from JArr.IH[OF x] have b: "91 \<in> set (js_String H x)" .
  from x(2) have "?f x = js_String H x" by auto
  with x(1) have "js_String H x \<in> set (map ?f xs)" by force
  from set_joinWith[OF this, of "asc '',''"] b show ?case by auto
next
  case (JObj kvs)
  show ?case by (simp add: asc_def)
qed simp_all

lemma role_without_bracket:
  assumes "91 \<notin> set (roleOf H m)"
  shows "\<not> roleRaises m"
proof
  assume r: "roleRaises m"
  then have s: "stringRaises (getProp m (asc ''role''))" by (simp add: roleRaises_def)
  then have "getProp m (asc ''role'') \<noteq> JUndefined \<and> getProp m (asc ''role'') \<noteq> JNull"
    by auto
  then have "roleOf H m = js_String H (getProp m (asc ''role''))"
    by (simp add: roleOf_def Let_def)
  with raises_bracket[OF s, of H] assms show False by simp
qed

lemma tool_role_not_raises: "isToolResultRole (roleOf H m) \<Longrightarrow> \<not> roleRaises m"
  by (rule role_without_bracket[of H]) (auto simp: isToolResultRole_def asc_def)

lemma not_skipped_guard: "\<not> imageSkipped H cfg m \<Longrightarrow> imageGuard H cfg m = Inr False"
  by (simp add: imageSkipped_def)

lemma strategies_identity_on_user_system:
  assumes "getProp m (asc ''role'') = JStr (asc ''user'') \<or> getProp m (asc ''role'') = JStr (asc ''system'')"
  shows "applySoftPruning H m cfg = Inr Same" "applyHardPruning H m cfg = Inr Same"
    "applyDetailPruning H m cfg = Inr Same"
  using assms
  by (auto simp: applySoftPruning_def applyHardPruning_def applyDetailPruning_def
      roleOf_string user_system_not_tool string_role_not_raises)

lemma zoneStarts_ordered: "(case zoneStarts H cfg n of (s, h, d) \<Rightarrow> s \<le> h \<and> h \<le> d)"
  by (simp add: zoneStarts_def Let_def)

lemma hard_ok:
  assumes "isToolResultRole (roleOf H m)" "\<not> imageSkipped H cfg m"
  shows "applyHardPruning H m cfg = Inr (Fresh (withContent m (preserveContentShape (getProp m (asc ''content'')) (hard_clear_placeholder cfg))))"
  using assms by (simp add: applyHardPruning_def tool_role_not_raises not_skipped_guard)



lemma pruneLoop_step:
  "pruneLoop H S P pe starts (meta # rest) (out, ch, st) = Inr res \<Longrightarrow>
     (loopDecision S P pe starts meta = Inr Same \<and> pruneLoop H S P pe starts rest (out, ch, st) = Inr res)
   \<or> (\<exists>v st'. loopDecision S P pe starts meta = Inr (Fresh v)
         \<and> contextTokensBefore st' = contextTokensBefore st
         \<and> pruneLoop H S P pe starts rest (out[index meta := Fresh v], True, st') = Inr res)"
  by (auto simp: loopDecision_def Let_def split: if_splits prod.splits option.splits sum.splits outcome.splits)

lemma pruneLoop_result:
  "pruneLoop H S P pe starts metas (out, ch, st) = Inr (out', ch', st') \<Longrightarrow>
     length out' = length out \<and>
     (\<forall>j. (\<forall>meta\<in>set metas. index meta \<noteq> j) \<longrightarrow> out' ! j = out ! j) \<and>
     (\<forall>j<length out. out' ! j = out ! j \<or>
        (\<exists>meta\<in>set metas. \<exists>v. index meta = j \<and> loopDecision S P pe starts meta = Inr (Fresh v) \<and> out' ! j = Fresh v)) \<and>
     (ch' \<longleftrightarrow> ch \<or> (\<exists>meta\<in>set metas. \<exists>v. loopDecision S P pe starts meta = Inr (Fresh v))) \<and>
     contextTokensBefore st' = contextTokensBefore st"
proof (induction metas arbitrary: out ch st)
  case Nil
  then show ?case by simp
next
  case (Cons meta rest)
  from pruneLoop_step[OF Cons.prems]
  show ?case
  proof (elim disjE conjE exE)
    assume d: "loopDecision S P pe starts meta = Inr Same"
      and r: "pruneLoop H S P pe starts rest (out, ch, st) = Inr (out', ch', st')"
    from Cons.IH[OF r] d show ?thesis by auto
  next
    fix v st1
    assume d: "loopDecision S P pe starts meta = Inr (Fresh v)"
      and b: "contextTokensBefore st1 = contextTokensBefore st"
      and r: "pruneLoop H S P pe starts rest (out[index meta := Fresh v], True, st1) = Inr (out', ch', st')"
    note ih = Cons.IH[OF r]
    have len: "length out' = length out" using ih by simp
    have untouched: "\<forall>j. (\<forall>m\<in>set (meta # rest). index m \<noteq> j) \<longrightarrow> out' ! j = out ! j"
      using ih by auto
    have slots: "\<forall>j<length out. out' ! j = out ! j \<or>
        (\<exists>m\<in>set (meta # rest). \<exists>w. index m = j \<and> loopDecision S P pe starts m = Inr (Fresh w) \<and> out' ! j = Fresh w)"
    proof (intro allI impI)
      fix j assume j: "j < length out"
      from ih j have "out' ! j = (out[index meta := Fresh v]) ! j \<or>
        (\<exists>m\<in>set rest. \<exists>w. index m = j \<and> loopDecision S P pe starts m = Inr (Fresh w) \<and> out' ! j = Fresh w)"
        by simp
      then show "out' ! j = out ! j \<or>
        (\<exists>m\<in>set (meta # rest). \<exists>w. index m = j \<and> loopDecision S P pe starts m = Inr (Fresh w) \<and> out' ! j = Fresh w)"
        using d j by (cases "index meta = j") auto
    qed
    have chg: "ch' \<longleftrightarrow> ch \<or> (\<exists>m\<in>set (meta # rest). \<exists>w. loopDecision S P pe starts m = Inr (Fresh w))"
      using ih d by auto
    have "contextTokensBefore st' = contextTokensBefore st" using ih b by simp
    with len untouched slots chg show ?thesis by blast
  qed
qed




lemma meta_from_props:
  "meta \<in> set (buildMessageMeta_from H i c msgs) \<Longrightarrow>
     i \<le> index meta \<and> index meta < i + length msgs \<and> message meta = msgs ! (index meta - i)
     \<and> is_object (message meta) \<and> role meta = roleOf H (message meta)"
proof (induction msgs arbitrary: i c)
  case Nil
  then show ?case by simp
next
  case (Cons raw rest)
  show ?case
  proof (cases "is_object raw")
    case False
    with Cons.prems have "meta \<in> set (buildMessageMeta_from H (Suc i) c rest)" by simp
    from Cons.IH[OF this] show ?thesis by (auto simp: nth_Cons')
  next
    case True
    let ?c' = "c + max 1 (estimateMessageTokens H raw)"
    from True Cons.prems have "index meta = i \<and> message meta = raw \<and> role meta = roleOf H raw
        \<or> meta \<in> set (buildMessageMeta_from H (Suc i) ?c' rest)"
      by (auto simp: Let_def)
    then show ?thesis
    proof
      assume "index meta = i \<and> message meta = raw \<and> role meta = roleOf H raw"
      with True show ?thesis by simp
    next
      assume "meta \<in> set (buildMessageMeta_from H (Suc i) ?c' rest)"
      from Cons.IH[OF this] show ?thesis by (auto simp: nth_Cons')
    qed
  qed
qed

lemma meta_from_distinct: "distinct (map index (buildMessageMeta_from H i c msgs))"
proof (induction msgs arbitrary: i c)
  case Nil
  then show ?case by simp
next
  case (Cons raw rest)
  have "\<And>c' m. m \<in> set (buildMessageMeta_from H (Suc i) c' rest) \<Longrightarrow> index m \<noteq> i"
    using meta_from_props by fastforce
  with Cons.IH show ?case by (auto simp: Let_def)
qed

lemma meta_from_exists:
  "j < length msgs \<Longrightarrow> is_object (msgs ! j) \<Longrightarrow>
     \<exists>meta\<in>set (buildMessageMeta_from H i c msgs). index meta = i + j"
proof (induction msgs arbitrary: i c j)
  case Nil
  then show ?case by simp
next
  case (Cons raw rest)
  show ?case
  proof (cases j)
    case 0
    with Cons.prems show ?thesis by (simp add: Let_def)
  next
    case (Suc k)
    with Cons.prems have k: "k < length rest" "is_object (rest ! k)" by simp_all
    from Cons.IH[OF k]
    have "\<exists>meta\<in>set (buildMessageMeta_from H (Suc i) c' rest). index meta = Suc i + k" for c'
      by blast
    then show ?thesis using Suc by (auto simp: Let_def)
  qed
qed

lemma meta_props:
  "meta \<in> set (buildMessageMeta H msgs) \<Longrightarrow>
     index meta < length msgs \<and> message meta = msgs ! index meta
     \<and> is_object (message meta) \<and> role meta = roleOf H (message meta)"
  using meta_from_props[of meta H 0 0 msgs] by (auto simp: buildMessageMeta_def)

lemma meta_unique:
  "meta \<in> set (buildMessageMeta H msgs) \<Longrightarrow> meta' \<in> set (buildMessageMeta H msgs) \<Longrightarrow>
     index meta = index meta' \<Longrightarrow> meta = meta'"
  using meta_from_distinct[of H 0 0 msgs]
  by (simp add: buildMessageMeta_def distinct_map inj_on_def)

lemma meta_exists:
  "j < length msgs \<Longrightarrow> is_object (msgs ! j) \<Longrightarrow> \<exists>meta\<in>set (buildMessageMeta H msgs). index meta = j"
  using meta_from_exists[of j msgs H 0 0] by (simp add: buildMessageMeta_def)

lemma protectStep_sub: "x \<in> A \<Longrightarrow> x \<in> protectStep ks kt m A"
  by (simp add: protectStep_def)

lemma protectStep_in:
  "role m = asc ''user'' \<or> role m = asc ''system''
     \<or> js_ge (Fin (of_nat (index m))) ks \<or> js_ge (Fin (of_nat (tokenStart m))) kt \<Longrightarrow>
   index m \<in> protectStep ks kt m A"
  by (auto simp: protectStep_def)

lemma protect_fold_sub: "x \<in> A \<Longrightarrow> x \<in> fold (protectStep ks kt) metas A"
  by (induction metas arbitrary: A) (simp_all add: protectStep_sub)

lemma protect_fold:
  "meta \<in> set metas \<Longrightarrow>
     role meta = asc ''user'' \<or> role meta = asc ''system''
      \<or> js_ge (Fin (of_nat (index meta))) ks \<or> js_ge (Fin (of_nat (tokenStart meta))) kt \<Longrightarrow>
     index meta \<in> fold (protectStep ks kt) metas A"
proof (induction metas arbitrary: A)
  case Nil
  then show ?case by simp
next
  case (Cons m rest)
  show ?case
  proof (cases "meta = m")
    case True
    with Cons.prems(2) have "index meta \<in> protectStep ks kt m A"
      using protectStep_in by blast
    then show ?thesis by (simp add: protect_fold_sub)
  next
    case False
    with Cons.prems have "meta \<in> set rest" by simp
    from Cons.IH[OF this Cons.prems(2)] show ?thesis by simp
  qed
qed

lemma protected_mem:
  "meta \<in> set metas \<Longrightarrow>
     role meta = asc ''user'' \<or> role meta = asc ''system''
     \<or> js_ge (Fin (of_nat (index meta))) ks \<or> js_ge (Fin (of_nat (tokenStart meta))) kt \<Longrightarrow>
     index meta \<in> protectedIndicesOf ks kt metas"
  unfolding protectedIndicesOf_def by (rule protect_fold)

lemma apply_slots:
  assumes "applyPruningWithStats H messages cfg S = Inr (r, stats)"
  shows "length (returnedSlots messages r) = length messages \<and>
    (\<forall>j<length messages. returnedSlots messages r ! j = Same \<or>
       (\<exists>meta\<in>set (buildMessageMeta H messages). \<exists>v. index meta = j
          \<and> loopDecision S
               (protectedIndicesOf
                  (keepRecentMessageStartIndexOf cfg (length messages))
                  (keepRecentStartTokenOf cfg (tokenEnd (last (buildMessageMeta H messages))))
                  (buildMessageMeta H messages))
               (keepRecentStartTokenOf cfg (tokenEnd (last (buildMessageMeta H messages))))
               (zoneStarts H cfg (tokenEnd (last (buildMessageMeta H messages)))) meta = Inr (Fresh v)
          \<and> returnedSlots messages r ! j = Fresh v))"
proof (cases "buildMessageMeta H messages = []")
  case True
  with assms have "r = InputArray"
    by (simp add: applyPruningWithStats_def Let_def split: if_splits)
  then show ?thesis by (simp add: returnedSlots_def)
next
  case False
  let ?metas = "buildMessageMeta H messages"
  let ?total = "tokenEnd (last ?metas)"
  let ?pe = "keepRecentStartTokenOf cfg ?total"
  let ?P = "protectedIndicesOf (keepRecentMessageStartIndexOf cfg (length messages)) ?pe ?metas"
  let ?starts = "zoneStarts H cfg ?total"
  from assms False obtain st0 out ch st where
    loop: "pruneLoop H S ?P ?pe ?starts ?metas (replicate (length messages) Same, False, st0) = Inr (out, ch, st)"
    and r: "r = (if \<not> ch then InputArray else NewArray out)"
    by (auto simp: applyPruningWithStats_def Let_def split: sum.splits prod.splits if_splits)
  note res = pruneLoop_result[OF loop]
  show ?thesis
  proof (cases ch)
    case False
    with r show ?thesis by (simp add: returnedSlots_def)
  next
    case True
    with r have "returnedSlots messages r = out" by (simp add: returnedSlots_def)
    with res show ?thesis by auto
  qed
qed




lemma loopDecision_protected:
  "index meta \<in> P \<Longrightarrow> loopDecision S P pe starts meta = Inr Same"
  by (simp add: loopDecision_def)

lemma returnedList_nth:
  "length (returnedSlots messages r) = length messages \<Longrightarrow> i < length messages \<Longrightarrow>
     returnedList messages r ! i = slotValue (messages ! i) (returnedSlots messages r ! i)"
  by (cases r) (simp_all add: returnedList_def returnedSlots_def slotValue_def)

lemma returnedList_length:
  "length (returnedSlots messages r) = length messages \<Longrightarrow>
     length (returnedList messages r) = length messages"
  by (cases r) (simp_all add: returnedList_def returnedSlots_def)

lemma js_ge_max0:
  "js_ge (Fin a) x \<Longrightarrow> 0 \<le> a \<Longrightarrow> js_ge (Fin a) (Math_max (Fin 0) x)"
  by (cases x) (auto simp: js_ge_def)

lemma example_run:
  "applyPruningWithStats asciiHost exampleMessages exampleConfig
     (createStrategies asciiHost exampleConfig) = Inr (NewArray exampleOut, exampleStats)"
  by code_simp

lemma slot_same_if_protected:
  assumes run: "applyPruningWithStats H messages cfg S = Inr (r, stats)"
    and i: "i < length messages"
    and prot: "\<And>meta. meta \<in> set (buildMessageMeta H messages) \<Longrightarrow> index meta = i \<Longrightarrow>
        loopDecision S
          (protectedIndicesOf (keepRecentMessageStartIndexOf cfg (length messages))
             (keepRecentStartTokenOf cfg (tokenEnd (last (buildMessageMeta H messages))))
             (buildMessageMeta H messages))
          (keepRecentStartTokenOf cfg (tokenEnd (last (buildMessageMeta H messages))))
          (zoneStarts H cfg (tokenEnd (last (buildMessageMeta H messages)))) meta = Inr Same"
  shows "returnedSlots messages r ! i = Same \<and> returnedList messages r ! i = messages ! i"
proof -
  let ?metas = "buildMessageMeta H messages"
  let ?pe = "keepRecentStartTokenOf cfg (tokenEnd (last ?metas))"
  let ?P = "protectedIndicesOf (keepRecentMessageStartIndexOf cfg (length messages)) ?pe ?metas"
  let ?starts = "zoneStarts H cfg (tokenEnd (last ?metas))"
  note sl = apply_slots[OF run]
  from sl have len: "length (returnedSlots messages r) = length messages" by (rule conjunct1)
  from sl i have alt: "returnedSlots messages r ! i = Same \<or>
       (\<exists>meta\<in>set ?metas. \<exists>v. index meta = i
          \<and> loopDecision S ?P ?pe ?starts meta = Inr (Fresh v)
          \<and> returnedSlots messages r ! i = Fresh v)"
    by (elim conjE allE[of _ i]) simp
  have same: "returnedSlots messages r ! i = Same"
  proof (rule ccontr)
    assume "returnedSlots messages r ! i \<noteq> Same"
    with alt obtain meta' v where m': "meta' \<in> set ?metas" "index meta' = i"
      and d: "loopDecision S ?P ?pe ?starts meta' = Inr (Fresh v)" by blast
    from prot[OF m'] d show False by simp
  qed
  with returnedList_nth[OF len i] show ?thesis by (simp add: slotValue_def)
qed

lemma example_metas:
  "buildMessageMeta asciiHost exampleMessages =
     [\<lparr>index = 1, message = exampleMessages ! 1, role = asc ''tool_result'', tokenCount = 7,
        tokenStart = 0, tokenEnd = 7, tokenMid = 7 / 2\<rparr>,
      \<lparr>index = 2, message = exampleMessages ! 2, role = asc ''tool_result'', tokenCount = 7,
        tokenStart = 7, tokenEnd = 14, tokenMid = 21 / 2\<rparr>,
      \<lparr>index = 3, message = exampleMessages ! 3, role = asc ''user'', tokenCount = 7,
        tokenStart = 14, tokenEnd = 21, tokenMid = 35 / 2\<rparr>,
      \<lparr>index = 4, message = exampleMessages ! 4, role = asc ''assistant'', tokenCount = 7,
        tokenStart = 21, tokenEnd = 28, tokenMid = 49 / 2\<rparr>]"
  by code_simp

lemma loopDecision_Fresh:
  assumes "loopDecision S P pe starts meta = Inr (Fresh v)"
  shows "index meta \<notin> P"
    and "(case starts of (s, h, d) \<Rightarrow> resolveZone (tokenMid meta) s h d) \<noteq> Zone_none"
    and "\<exists>zone apply. zone \<noteq> Zone_none \<and> S zone = Some apply \<and> apply (message meta) = Inr (Fresh v)"
  using assms
  by (auto simp: loopDecision_def Let_def split: if_splits prod.splits option.splits)

lemma apply_slots':
  assumes "applyPruningWithStats H messages cfg S = Inr (r, stats)" and "j < length messages"
  shows "returnedSlots messages r ! j = Same \<or>
       (\<exists>meta\<in>set (buildMessageMeta H messages). \<exists>v. index meta = j
          \<and> loopDecision S (protectedOf H cfg messages)
               (keepRecentStartTokenOf cfg (totalTokensOf H messages))
               (zoneStarts H cfg (totalTokensOf H messages)) meta = Inr (Fresh v)
          \<and> returnedSlots messages r ! j = Fresh v)"
  using apply_slots[OF assms(1)] assms(2)
  unfolding protectedOf_def totalTokensOf_def by (elim conjE allE[of _ j]) simp

lemma example_protected: "protectedOf asciiHost exampleConfig exampleMessages = {3, 4}"
  by code_simp

lemma example_hard:
  "applyHardPruning asciiHost (exampleMessages ! 2) exampleConfig
     = Inr (Fresh (mkMessage ''tool_result'' (JStr (asc ''[CLEARED]''))))"
  by code_simp

lemma example_zone_none:
  "(case zoneStarts asciiHost exampleConfig (totalTokensOf asciiHost exampleMessages) of
      (s, h, d) \<Rightarrow> resolveZone (tokenMid (buildMessageMeta asciiHost exampleMessages ! 0)) s h d)
   = Zone_none"
  by code_simp

lemma estimateMessageTokens_pos: "1 \<le> estimateMessageTokens H m"
proof -
  have "(0::rat) < rat_of_nat (n + 16) / 4" for n :: nat
    by simp
  then have "0 < \<lceil>rat_of_nat (n + 16) / 4\<rceil>" for n :: nat
    by (simp only: zero_less_ceiling)
  then show ?thesis
    by (simp add: estimateMessageTokens_def Let_def TOKENS_PER_CHAR_ESTIMATE_def Suc_le_eq)
qed

lemma meta_from_total:
  "foldl (\<lambda>sum raw. if \<not> is_object raw then sum else sum + estimateMessageTokens H raw) c msgs
   = (case buildMessageMeta_from H i c msgs of [] \<Rightarrow> c | m # ms \<Rightarrow> tokenEnd (last (m # ms)))"
proof (induction msgs arbitrary: i c)
  case Nil
  then show ?case by simp
next
  case (Cons raw rest)
  show ?case
  proof (cases "is_object raw")
    case False
    then show ?thesis using Cons.IH[of c "Suc i"] by simp
  next
    case True
    have e: "max (Suc 0) (estimateMessageTokens H raw) = estimateMessageTokens H raw"
      using estimateMessageTokens_pos[of H raw] by simp
    show ?thesis using True Cons.IH[of "c + estimateMessageTokens H raw" "Suc i"]
      by (simp add: Let_def e split: list.splits)
  qed
qed

lemma total_is_context_estimate:
  "buildMessageMeta H messages \<noteq> [] \<Longrightarrow>
     tokenEnd (last (buildMessageMeta H messages)) = estimateContextTokens H messages"
  using meta_from_total[of H 0 messages 0]
  by (simp add: buildMessageMeta_def estimateContextTokens_def split: list.splits)

lemma tool_role_object:
  "isToolResultRole (roleOf H m) \<Longrightarrow> \<exists>kvs. m = JObj kvs"
  by (cases m) (simp_all add: roleOf_def isToolResultRole_def asc_def)

lemma getProp_withContent_other:
  "k \<noteq> asc ''content'' \<Longrightarrow> getProp (withContent (JObj kvs) v) k = getProp (JObj kvs) k"
  by (simp add: withContent_def spreadProps_def update_conv')

lemma preserveContentShape_cases:
  "(\<forall>s. c = JStr s \<longrightarrow> preserveContentShape c t = JStr t)
   \<and> (\<forall>blocks. c = JArr blocks \<longrightarrow> preserveContentShape c t = JArr [textBlock t])
   \<and> ((\<forall>s. c \<noteq> JStr s) \<and> (\<forall>blocks. c \<noteq> JArr blocks) \<longrightarrow> preserveContentShape c t = JStr t)"
  by (cases c) (simp_all add: preserveContentShape_def)

lemma js_gt_not_le: "js_gt a b \<Longrightarrow> \<not> js_le a b"
  by (cases a; cases b) (simp_all add: js_gt_def)

lemma str_includes_middle: "str_includes (a @ p @ b) p"
proof -
  have "occursAt (a @ p @ b) p (length a)" by (simp add: occursAt_def)
  moreover have "length a \<in> set [0..<Suc (length (a @ p @ b))]" by simp
  ultimately show ?thesis unfolding str_includes_def list_ex_iff by blast
qed

lemma softText_marker: "str_includes (softText config raw) (asc ''... (truncated)'')"
proof -
  obtain a b where "softText config raw = a @ asc ''... (truncated)'' @ b"
    unfolding softText_def Let_def by (metis append.assoc)
  then show ?thesis by (simp only: str_includes_middle)
qed

lemma softText_size:
  "str_includes (softText config raw)
     (asc ''[Original size: '' @ decimal (length raw) @ asc '' characters]'')"
proof -
  obtain a b where "softText config raw
      = a @ (asc ''[Original size: '' @ decimal (length raw) @ asc '' characters]'') @ b"
    unfolding softText_def Let_def by (metis append.assoc)
  then show ?thesis by (simp only: str_includes_middle)
qed

lemma example_tool_role: "isToolResultRole (roleOf asciiHost (exampleMessages ! 2))"
  by code_simp

lemma example_not_skipped: "\<not> imageSkipped asciiHost exampleConfig (exampleMessages ! 2)"
  by code_simp

lemma block_tool_role: "isToolResultRole (roleOf asciiHost blockMessage)"
  by code_simp

lemma block_not_skipped: "\<not> imageSkipped asciiHost exampleConfig blockMessage"
  by code_simp

lemma long_tool_role: "isToolResultRole (roleOf asciiHost longMessage)"
  by code_simp

lemma long_not_skipped: "\<not> imageSkipped asciiHost exampleConfig longMessage"
  by code_simp

lemma example_unified:
  "toUnifiedText asciiHost (getProp (exampleMessages ! 2) (asc ''content'')) = Some (asc ''x'')"
  by code_simp

lemma long_unified:
  "toUnifiedText asciiHost (getProp longMessage (asc ''content'')) = Some (replicate 50 65)"
  by code_simp

lemma pruneLoop_fresh_slots:
  "pruneLoop H S P pe starts metas (out, ch, st) = Inr (out', ch', st') \<Longrightarrow>
     (\<forall>j<length out. (\<exists>w. out ! j = Fresh w) \<longrightarrow> (\<exists>w. out' ! j = Fresh w)) \<and>
     (\<forall>meta\<in>set metas. index meta < length out
         \<and> (\<exists>v. loopDecision S P pe starts meta = Inr (Fresh v))
         \<longrightarrow> (\<exists>w. out' ! index meta = Fresh w))"
proof (induction metas arbitrary: out ch st)
  case Nil
  then show ?case by simp
next
  case (Cons meta rest)
  from pruneLoop_step[OF Cons.prems]
  show ?case
  proof (elim disjE conjE exE)
    assume d: "loopDecision S P pe starts meta = Inr Same"
      and r: "pruneLoop H S P pe starts rest (out, ch, st) = Inr (out', ch', st')"
    from Cons.IH[OF r] d show ?thesis by auto
  next
    fix v st1
    assume d: "loopDecision S P pe starts meta = Inr (Fresh v)"
      and r: "pruneLoop H S P pe starts rest (out[index meta := Fresh v], True, st1) = Inr (out', ch', st')"
    note ih = Cons.IH[OF r]
    have keep: "\<forall>j<length out. (\<exists>w. (out[index meta := Fresh v]) ! j = Fresh w) \<longrightarrow> (\<exists>w. out' ! j = Fresh w)"
      using ih by simp
    have a: "\<forall>j<length out. (\<exists>w. out ! j = Fresh w) \<longrightarrow> (\<exists>w. out' ! j = Fresh w)"
    proof (intro allI impI)
      fix j assume j: "j < length out" and f: "\<exists>w. out ! j = Fresh w"
      then have "\<exists>w. (out[index meta := Fresh v]) ! j = Fresh w"
        by (cases "index meta = j") auto
      with keep j show "\<exists>w. out' ! j = Fresh w" by blast
    qed
    have b: "\<exists>w. out' ! index m = Fresh w"
      if m: "m \<in> set (meta # rest)" "index m < length out"
        "\<exists>v. loopDecision S P pe starts m = Inr (Fresh v)" for m
    proof (cases "m \<in> set rest")
      case True
      with ih m show ?thesis by simp
    next
      case False
      with m have "m = meta" by simp
      with m(2) have "\<exists>w. (out[index meta := Fresh v]) ! index m = Fresh w" by simp
      with keep m(2) show ?thesis by blast
    qed
    from a b show ?thesis by blast
  qed
qed

lemma sameArrayShallow_InputArray:
  "sameArrayShallow messages InputArray \<longleftrightarrow> JNum NaN \<notin> set messages"
proof -
  have "list_all (\<lambda>(a, b). strictlyEqualSlot a b) (zip xs (replicate n Same))
      \<longleftrightarrow> JNum NaN \<notin> set (take n xs)" for xs n
  proof (induction xs arbitrary: n)
    case Nil
    then show ?case by simp
  next
    case (Cons x xs)
    then show ?case by (cases n) (auto simp: strictlyEqualSlot_def)
  qed
  from this[of messages "length messages"] show ?thesis
    by (simp add: sameArrayShallow_def returnedSlots_def)
qed

lemma sameArrayShallow_Fresh:
  "j < length out \<Longrightarrow> length out = length messages \<Longrightarrow> out ! j = Fresh w \<Longrightarrow>
     \<not> sameArrayShallow messages (NewArray out)"
proof -
  assume j: "j < length out" and l: "length out = length messages" and f: "out ! j = Fresh w"
  then have "(messages ! j, out ! j) \<in> set (zip messages out)"
    by (metis in_set_zip fst_conv snd_conv)
  with f have "(messages ! j, Fresh w) \<in> set (zip messages out)" by simp
  moreover have "\<not> (case (messages ! j, Fresh w) of (a, b) \<Rightarrow> strictlyEqualSlot a b)"
    by (simp add: strictlyEqualSlot_def)
  ultimately have "\<not> list_all (\<lambda>(a, b). strictlyEqualSlot a b) (zip messages out)"
    unfolding list_all_iff by blast
  then show ?thesis by (simp add: sameArrayShallow_def returnedSlots_def)
qed

lemma change_detected:
  assumes run: "applyPruningWithStats H messages cfg S = Inr (res, stats)"
    and nan: "JNum NaN \<notin> set messages"
  shows "sameArrayShallow messages res \<longleftrightarrow> res = InputArray"
proof (cases res)
  case InputArray
  with nan show ?thesis by (simp add: sameArrayShallow_InputArray)
next
  case (NewArray out)
  let ?metas = "buildMessageMeta H messages"
  from run NewArray have ne: "?metas \<noteq> []"
    by (auto simp: applyPruningWithStats_def Let_def split: if_splits)
  from run NewArray ne obtain st0 st where
    loop: "pruneLoop H S (protectedOf H cfg messages)
             (keepRecentStartTokenOf cfg (totalTokensOf H messages))
             (zoneStarts H cfg (totalTokensOf H messages)) ?metas
             (replicate (length messages) Same, False, st0) = Inr (out, True, st)"
    by (auto simp: applyPruningWithStats_def Let_def protectedOf_def totalTokensOf_def
        split: sum.splits prod.splits if_splits)
  from pruneLoop_result[OF loop] obtain meta v where
    m: "meta \<in> set ?metas"
    and d: "loopDecision S (protectedOf H cfg messages)
             (keepRecentStartTokenOf cfg (totalTokensOf H messages))
             (zoneStarts H cfg (totalTokensOf H messages)) meta = Inr (Fresh v)"
    and len: "length out = length messages"
    by auto
  from meta_props[OF m] have i: "index meta < length messages" by simp
  from pruneLoop_fresh_slots[OF loop] m d i obtain w where "out ! index meta = Fresh w"
    by force
  from sameArrayShallow_Fresh[OF _ len this] i len NewArray show ?thesis by simp
qed

lemma js_ge_not_lt: "js_ge a b \<Longrightarrow> \<not> js_lt a b"
  by (cases a; cases b) (simp_all add: js_ge_def)

lemma js_lt_mono_left: "a \<le> b \<Longrightarrow> js_lt (Fin b) x \<Longrightarrow> js_lt (Fin a) x"
  by (cases x) simp_all

lemma handler_unfold:
  assumes ne: "messages \<noteq> []"
    and above: "js_ge (Fin (of_nat (estimateContextTokens H messages))) (pruning_threshold config)"
  shows "createBeforeAgentStartHandler H config sessionState now (Some messages) ctx =
    (if 0 < pruneCount (stateOrInitial sessionState (sessionKeyOf ctx))
        \<and> js_lt (Fin (of_int (max 0 (int (estimateContextTokens H messages)
                  - int (lastTriggerTokenCount (stateOrInitial sessionState (sessionKeyOf ctx)))))))
             (trigger_every_n_tokens config)
     then Inr (sessionState, Some messages, Cooldown)
     else (case applyPruningWithStats H messages config (createStrategies H config) of
             Inl e \<Rightarrow> Inl e
           | Inr (res, stats) \<Rightarrow>
               Inr (sessionState(sessionKeyOf ctx \<mapsto>
                      (stateOrInitial sessionState (sessionKeyOf ctx))
                        \<lparr>lastTriggerTokenCount := estimateContextTokens H messages,
                         lastTriggeredAt := now,
                         pruneCount :=
                           (if sameArrayShallow messages res
                            then pruneCount (stateOrInitial sessionState (sessionKeyOf ctx))
                            else pruneCount (stateOrInitial sessionState (sessionKeyOf ctx)) + 1)\<rparr>),
                    (if sameArrayShallow messages res then Some messages
                     else Some (case res of InputArray \<Rightarrow> []
                                | NewArray out \<Rightarrow> map2 slotValue messages out)),
                    (if sameArrayShallow messages res then NoEligible else Pruned))))"
  using ne js_ge_not_lt[OF above]
  by (simp add: createBeforeAgentStartHandler_def Let_def split: sum.splits prod.splits)

lemma example_total: "estimateContextTokens asciiHost exampleMessages = 28"
  by code_simp

lemma nan_run:
  "applyPruningWithStats asciiHost nanMessages exampleConfig
     (createStrategies asciiHost exampleConfig) = Inr (InputArray, nanStats)"
  by code_simp

lemma nan_total: "estimateContextTokens asciiHost nanMessages = 21"
  by code_simp

lemma example_key: "sessionKeyOf exampleContext = asc ''s1''"
  by (simp add: sessionKeyOf_def exampleContext_def asc_def)

lemma example_changed: "\<not> sameArrayShallow exampleMessages (NewArray exampleOut)"
  by (rule sameArrayShallow_Fresh[of 2])
     (simp_all add: exampleOut_def exampleMessages_def)

lemma find_rev_upt_Some:
  "List.find P (rev [0..<n]) = Some i \<longleftrightarrow> i < n \<and> P i \<and> (\<forall>j. i < j \<and> j < n \<longrightarrow> \<not> P j)"
proof (induction n)
  case 0
  then show ?case by simp
next
  case (Suc n)
  show ?case
  proof (cases "P n")
    case True
    then show ?thesis by (auto simp: less_Suc_eq)
  next
    case False
    have "(\<forall>j. i < j \<and> j < Suc n \<longrightarrow> \<not> P j) \<longleftrightarrow> (\<forall>j. i < j \<and> j < n \<longrightarrow> \<not> P j)"
      using False by (auto simp: less_Suc_eq)
    moreover have "i < Suc n \<and> P i \<longleftrightarrow> i < n \<and> P i"
      using False by (auto simp: less_Suc_eq)
    ultimately show ?thesis using False Suc.IH by auto
  qed
qed

lemma find_rev_upt_None:
  "List.find P (rev [0..<n]) = None \<longleftrightarrow> (\<forall>j<n. \<not> P j)"
  by (simp add: find_None_iff)

lemma occursAt_bound: "occursAt tx pat i \<Longrightarrow> i \<le> length tx"
  by (simp add: occursAt_def)

lemma occurs_none_iff:
  "List.find (occursAt tx pat) (rev [0..<Suc (length tx)]) = None
     \<longleftrightarrow> \<not> str_includes tx pat"
  unfolding str_includes_def list_ex_iff find_None_iff by auto

lemma lastIndexOf_none: "lastIndexOf tx pat = - 1 \<longleftrightarrow> \<not> str_includes tx pat"
proof (cases "List.find (occursAt tx pat) (rev [0..<Suc (length tx)])")
  case None
  with occurs_none_iff[of tx pat] show ?thesis by (simp only: lastIndexOf_def) simp
next
  case (Some i)
  with occurs_none_iff[of tx pat] have "str_includes tx pat" by simp
  moreover from Some have "lastIndexOf tx pat = int i" by (simp only: lastIndexOf_def) simp
  ultimately show ?thesis by simp
qed

lemma lastIndexOf_some:
  assumes "str_includes tx pat"
  shows "\<exists>i. lastIndexOf tx pat = int i \<and> occursAt tx pat i \<and> i \<le> length tx
           \<and> (\<forall>j>i. \<not> occursAt tx pat j)"
proof -
  from assms occurs_none_iff[of tx pat]
  have "List.find (occursAt tx pat) (rev [0..<Suc (length tx)]) \<noteq> None" by simp
  then obtain i where f: "List.find (occursAt tx pat) (rev [0..<Suc (length tx)]) = Some i"
    by blast
  then have "i < Suc (length tx) \<and> occursAt tx pat i
    \<and> (\<forall>j. i < j \<and> j < Suc (length tx) \<longrightarrow> \<not> occursAt tx pat j)"
    by (rule iffD1[OF find_rev_upt_Some])
  then have i: "i < Suc (length tx)" "occursAt tx pat i"
    "\<forall>j. i < j \<and> j < Suc (length tx) \<longrightarrow> \<not> occursAt tx pat j"
    by blast+
  have "\<forall>j>i. \<not> occursAt tx pat j"
  proof (intro allI impI)
    fix j assume "i < j"
    show "\<not> occursAt tx pat j"
    proof (cases "j < Suc (length tx)")
      case True
      with i(3) \<open>i < j\<close> show ?thesis by blast
    next
      case False
      then show ?thesis using occursAt_bound[of tx pat j] by auto
    qed
  qed
  moreover from f have "lastIndexOf tx pat = int i" by (simp only: lastIndexOf_def) simp
  ultimately show ?thesis using i by auto
qed

lemma slice_from: "i \<le> length tx \<Longrightarrow> slice tx (Fin (of_nat i)) None = drop i tx"
  by (simp add: slice_def ToInteger_def Let_def min_def)

lemma trim_empty_iff: "trim s = [] \<longleftrightarrow> (\<forall>c\<in>set s. isSpace c)"
proof
  assume "trim s = []"
  then have "\<forall>c\<in>set (dropWhile isSpace s). isSpace c"
    by (simp add: trim_def)
  then have "dropWhile isSpace s = []"
    by (metis hd_dropWhile list.set_sel(1))
  then show "\<forall>c\<in>set s. isSpace c" by simp
next
  assume "\<forall>c\<in>set s. isSpace c"
  then show "trim s = []" by (auto simp: trim_def dest: set_dropWhileD)
qed

lemma trim_nonempty:
  assumes "occursAt tx m i" "m \<noteq> []" "\<not> isSpace (hd m)"
  shows "trim (drop i tx) \<noteq> []"
proof -
  from assms(1) have "take (length m) (drop i tx) = m" by (simp add: occursAt_def)
  then have "set m \<subseteq> set (drop i tx)" by (metis set_take_subset)
  with assms(2) have "hd m \<in> set (drop i tx)" by auto
  with assms(3) show ?thesis by (auto simp: trim_empty_iff)
qed

lemma markers_solid: "\<forall>m\<in>set markers. m \<noteq> [] \<and> \<not> isSpace (hd m)"
  by (simp add: markers_def asc_def isSpace_def)

lemma markerSummary_find:
  "\<forall>m\<in>set ms. m \<noteq> [] \<and> \<not> isSpace (hd m) \<Longrightarrow>
     markerSummary tx ms =
       (case List.find (str_includes tx) ms of
          None \<Rightarrow> None
        | Some m \<Rightarrow> Some (trim (drop (nat (lastIndexOf tx m)) tx)))"
proof (induction ms)
  case Nil
  then show ?case by simp
next
  case (Cons m ms)
  show ?case
  proof (cases "str_includes tx m")
    case False
    then have "lastIndexOf tx m = - 1" by (simp add: lastIndexOf_none)
    with False Cons show ?thesis by simp
  next
    case True
    from lastIndexOf_some[OF True] obtain i where
      i: "lastIndexOf tx m = int i" "occursAt tx m i" "i \<le> length tx" by blast
    from Cons.prems have "m \<noteq> []" "\<not> isSpace (hd m)" by simp_all
    from trim_nonempty[OF i(2) this] have "trim (drop i tx) \<noteq> []" .
    with True i show ?thesis by (simp add: Let_def slice_from)
  qed
qed

lemma extractFinalSummary_cases:
  "extractFinalSummary tx =
     (case List.find (str_includes tx) markers of
        Some m \<Rightarrow> Some (trim (drop (nat (lastIndexOf tx m)) tx))
      | None \<Rightarrow>
          (let paras = filter (\<lambda>p. p \<noteq> []) (map trim (splitBlank [] tx))
           in if paras = [] then None else Some (last paras)))"
proof -
  have "last ps \<noteq> []" if "ps \<noteq> []" "ps = filter (\<lambda>p. p \<noteq> []) qs" for ps qs :: "jstring list"
  proof -
    from that have "last ps \<in> set (filter (\<lambda>p. p \<noteq> []) qs)" by (metis last_in_set)
    then show ?thesis by simp
  qed
  then show ?thesis
    by (auto simp: extractFinalSummary_def markerSummary_find[OF markers_solid] Let_def
        split: option.splits)
qed

lemma matchBlank_space:
  assumes "matchBlank cs = Some j"
  shows "\<forall>c\<in>set (take (Suc j) cs). isSpace c"
proof -
  from assms have "j \<in> set (rev [0..<length (takeWhile isSpace cs)])"
    unfolding matchBlank_def find_Some_iff by (metis nth_mem)
  then have j: "Suc j \<le> length (takeWhile isSpace cs)" by simp
  have "takeWhile isSpace cs = take (length (takeWhile isSpace cs)) cs"
    by (rule takeWhile_eq_take)
  then have "take (Suc j) (takeWhile isSpace cs) = take (Suc j) cs"
    using j by (metis min.absorb1 take_take)
  then have "set (take (Suc j) cs) \<subseteq> set (takeWhile isSpace cs)"
    by (metis set_take_subset)
  then show ?thesis by (auto dest: set_takeWhileD)
qed

lemma splitBlank_space:
  "(\<forall>p\<in>set (splitBlank cur rest). \<forall>c\<in>set p. isSpace c)
     \<longleftrightarrow> (\<forall>c\<in>set cur \<union> set rest. isSpace c)"
proof (induction cur rest rule: splitBlank.induct)
  case (1 cur)
  then show ?case by simp
next
  case (2 cur c cs)
  show ?case
  proof (cases "c = 10")
    case False
    with 2(3)[OF False] show ?thesis by auto
  next
    case True
    then have sp: "isSpace c" by (simp add: isSpace_def)
    show ?thesis
    proof (cases "matchBlank cs")
      case None
      with True 2(1)[OF True None] sp show ?thesis by auto
    next
      case (Some j)
      from matchBlank_space[OF Some] have pre: "\<forall>x\<in>set (take (Suc j) cs). isSpace x" .
      have "set cs = set (take (Suc j) cs) \<union> set (drop (Suc j) cs)"
        by (metis append_take_drop_id set_append)
      with pre have "(\<forall>x\<in>set cs. isSpace x) \<longleftrightarrow> (\<forall>x\<in>set (drop (Suc j) cs). isSpace x)"
        by auto
      with True Some 2(2)[OF True Some] sp show ?thesis by auto
    qed
  qed
qed

lemma paras_empty_iff:
  "filter (\<lambda>p. p \<noteq> []) (map trim (splitBlank [] tx)) = [] \<longleftrightarrow> list_all isSpace tx"
proof -
  have "filter (\<lambda>p. p \<noteq> []) (map trim (splitBlank [] tx)) = []
      \<longleftrightarrow> (\<forall>p\<in>set (splitBlank [] tx). trim p = [])"
    by (auto simp: filter_empty_conv)
  also have "\<dots> \<longleftrightarrow> (\<forall>p\<in>set (splitBlank [] tx). \<forall>c\<in>set p. isSpace c)"
    by (simp only: trim_empty_iff)
  also have "\<dots> \<longleftrightarrow> (\<forall>c\<in>set [] \<union> set tx. isSpace c)"
    by (rule splitBlank_space)
  finally show ?thesis by (simp add: list_all_iff)
qed

lemma space_no_marker:
  assumes "list_all isSpace tx"
  shows "List.find (str_includes tx) markers = None"
proof -
  have "\<not> str_includes tx m" if m: "m \<in> set markers" for m
  proof
    assume "str_includes tx m"
    then obtain i where "occursAt tx m i"
      by (auto simp: str_includes_def list_ex_iff)
    then have "take (length m) (drop i tx) = m" by (simp add: occursAt_def)
    then have "set m \<subseteq> set tx" by (metis set_take_subset set_drop_subset subset_trans)
    moreover from markers_solid m have "m \<noteq> []" "\<not> isSpace (hd m)" by auto
    ultimately have "hd m \<in> set tx" "\<not> isSpace (hd m)" by auto
    with assms show False by (auto simp: list_all_iff)
  qed
  then show ?thesis by (simp add: find_None_iff)
qed

lemma tool_role_not_other:
  "isToolResultRole r \<Longrightarrow> r \<noteq> asc ''user'' \<and> r \<noteq> asc ''system'' \<and> \<not> isAssistantRole r"
  by (auto simp: isToolResultRole_def isAssistantRole_def asc_def)

lemma detail_tool_result:
  assumes "isToolResultRole (roleOf H msg)" and "\<not> imageSkipped H config msg"
    and "toUnifiedText H (getProp msg (asc ''content'')) = Some tx"
  shows "applyDetailPruning H msg config =
     Inr (Fresh (withContent msg (preserveContentShape (getProp msg (asc ''content''))
       (case extractFinalSummary tx of
          Some summary \<Rightarrow> if summary \<noteq> [] then detailPrefix @ summary
                           else detail_placeholder config
        | None \<Rightarrow> detail_placeholder config))))"
  using assms tool_role_not_other[OF assms(1)]
  by (simp add: applyDetailPruning_def Let_def tool_role_not_raises not_skipped_guard
      split: option.splits)

lemma isSpace_numeral [simp]:
  "isSpace (numeral k) \<longleftrightarrow>
     (numeral k :: nat) \<in> {9, 10, 11, 12, 13, 32, 160, 5760, 8232, 8233, 8239, 8287, 12288, 65279}
     \<or> (8192 \<le> (numeral k :: nat) \<and> (numeral k :: nat) \<le> 8202)"
  by (simp only: isSpace_def)

lemma included_chars: "str_includes tx m \<Longrightarrow> set m \<subseteq> set tx"
proof -
  assume "str_includes tx m"
  then obtain i where "occursAt tx m i" by (auto simp: str_includes_def list_ex_iff)
  then have "take (length m) (drop i tx) = m" by (simp add: occursAt_def)
  then show ?thesis by (metis set_take_subset set_drop_subset subset_trans)
qed

lemma marker_chars: "\<forall>m\<in>set markers. 58 \<in> set m \<or> 32467 \<in> set m"
  by (simp add: markers_def asc_def)

lemma no_marker_without:
  assumes "58 \<notin> set tx" "32467 \<notin> set tx"
  shows "List.find (str_includes tx) markers = None"
proof -
  have "\<not> str_includes tx m" if "m \<in> set markers" for m
    using included_chars[of tx m] marker_chars that assms by blast
  then show ?thesis by (simp add: find_None_iff)
qed

lemma priority_role: "isToolResultRole (roleOf asciiHost priorityMessage)"
  by code_simp

lemma priority_not_skipped: "\<not> imageSkipped asciiHost exampleConfig priorityMessage"
  by code_simp

lemma priority_unified:
  "toUnifiedText asciiHost (getProp priorityMessage (asc ''content''))
     = Some (asc ''Final: a Summary: b'')"
  by code_simp

lemma priority_first_marker:
  "List.find (str_includes (asc ''Final: a Summary: b'')) markers = Some (asc ''Final:'')"
proof -
  have "\<not> set (asc ''Final Answer:'') \<subseteq> set (asc ''Final: a Summary: b'')"
    by (simp add: asc_def)
  then have a: "\<not> str_includes (asc ''Final: a Summary: b'') (asc ''Final Answer:'')"
    using included_chars by blast
  have "asc ''Final: a Summary: b'' = [] @ asc ''Final:'' @ asc '' a Summary: b''"
    by (simp add: asc_def)
  then have b: "str_includes (asc ''Final: a Summary: b'') (asc ''Final:'')"
    by (simp only: str_includes_middle)
  from a b show ?thesis by (simp add: markers_def)
qed

lemma priority_last_index:
  "lastIndexOf (asc ''Final: a Summary: b'') (asc ''Final:'') = 0"
  "lastIndexOf (asc ''Final: a Summary: b'') (asc ''Summary:'') = 9"
  by code_simp+

lemma priority_trim:
  "trim (drop 0 (asc ''Final: a Summary: b'')) = asc ''Final: a Summary: b''"
  "trim (asc ''Final: a Summary: b'') = asc ''Final: a Summary: b''"
  by (simp_all add: trim_def asc_def)

lemma paragraph_role: "isToolResultRole (roleOf asciiHost paragraphMessage)"
  by code_simp

lemma paragraph_not_skipped: "\<not> imageSkipped asciiHost exampleConfig paragraphMessage"
  by code_simp

lemma paragraph_unified:
  "toUnifiedText asciiHost (getProp paragraphMessage (asc ''content''))
     = Some (asc ''one'' @ [10, 32, 10] @ asc ''two '')"
  by code_simp

lemma paragraph_no_marker:
  "List.find (str_includes (asc ''one'' @ [10, 32, 10] @ asc ''two '')) markers = None"
  by (rule no_marker_without) (simp_all add: asc_def)

lemma paragraph_not_blank: "\<not> list_all isSpace (asc ''one'' @ [10, 32, 10] @ asc ''two '')"
  by (simp add: asc_def)

lemma paragraph_last:
  "last (filter (\<lambda>p. p \<noteq> [])
     (map trim (splitBlank [] (asc ''one'' @ [10, 32, 10] @ asc ''two '')))) = asc ''two''"
  by (simp add: trim_def asc_def matchBlank_def)

lemma blank_role: "isToolResultRole (roleOf asciiHost blankMessage)"
  by code_simp

lemma blank_not_skipped: "\<not> imageSkipped asciiHost exampleConfig blankMessage"
  by code_simp

lemma blank_unified:
  "toUnifiedText asciiHost (getProp blankMessage (asc ''content'')) = Some [32, 10]"
  by code_simp

lemma blank_all_space: "list_all isSpace [32, 10]"
  by simp

lemma string_shape:
  "preserveContentShape (getProp (mkMessage r (JStr s)) (asc ''content'')) t = JStr t"
  by (simp add: mkMessage_def preserveContentShape_def asc_def)







lemma js_ToString_returns: "(\<exists>s. js_ToString H v = Inr s) \<longleftrightarrow> \<not> stringRaises v"
  by (simp add: js_ToString_def)















lemma example_normalized_again:
  "normalizeConfig asciiHost defaultConfig (configAsInput exampleNormalized)
     = Inr exampleNormalized"
  by code_simp



section \<open>Claims\<close>

text \<open>
  C1. A message whose role is exactly \<open>system\<close> or \<open>user\<close> is never altered: each
  of the three strategies returns it as it is, the first loop of the orchestrator puts
  its index in the protected set whatever the two recency bounds are, and in the list
  a call of \<open>applyPruningWithStats\<close> returns, its slot still holds the entry of the
  input.
\<close>

theorem user_system_never_altered:
  assumes "i < length messages"
    and "getProp (messages ! i) (asc ''role'') = JStr (asc ''user'')
         \<or> getProp (messages ! i) (asc ''role'') = JStr (asc ''system'')"
  shows "applySoftPruning H (messages ! i) cfg = Inr Same
       \<and> applyHardPruning H (messages ! i) cfg = Inr Same
       \<and> applyDetailPruning H (messages ! i) cfg = Inr Same
       \<and> i \<in> protectedIndicesOf ks kt (buildMessageMeta H messages)
       \<and> (applyPruningWithStats H messages cfg S = Inr (r, stats) \<longrightarrow>
            returnedSlots messages r ! i = Same \<and> returnedList messages r ! i = messages ! i)"
proof -
  let ?metas = "buildMessageMeta H messages"
  have obj: "is_object (messages ! i)"
    using assms(2) by (cases "messages ! i") auto
  have role: "roleOf H (messages ! i) = asc ''user'' \<or> roleOf H (messages ! i) = asc ''system''"
    using assms(2) by (auto simp: roleOf_string)
  have prot: "index meta \<in> protectedIndicesOf ks' kt' ?metas"
    if "meta \<in> set ?metas" "index meta = i" for meta ks' kt'
  proof -
    from meta_props[OF that(1)] that(2) role
    have "role meta = asc ''user'' \<or> role meta = asc ''system''" by auto
    with that(1) show ?thesis by (auto intro: protected_mem)
  qed
  from meta_exists[OF assms(1) obj] obtain meta where m: "meta \<in> set ?metas" "index meta = i"
    by blast
  have p: "i \<in> protectedIndicesOf ks kt ?metas" using prot[OF m] m(2) by simp
  have pipeline: "returnedSlots messages r ! i = Same \<and> returnedList messages r ! i = messages ! i"
    if run: "applyPruningWithStats H messages cfg S = Inr (r, stats)"
  proof -
    let ?pe = "keepRecentStartTokenOf cfg (tokenEnd (last ?metas))"
    let ?P = "protectedIndicesOf (keepRecentMessageStartIndexOf cfg (length messages)) ?pe ?metas"
    let ?starts = "zoneStarts H cfg (tokenEnd (last ?metas))"
    note sl = apply_slots[OF run]
    from sl have len: "length (returnedSlots messages r) = length messages" by (rule conjunct1)
    from sl assms(1) have alt: "returnedSlots messages r ! i = Same \<or>
       (\<exists>meta\<in>set ?metas. \<exists>v. index meta = i
          \<and> loopDecision S ?P ?pe ?starts meta = Inr (Fresh v)
          \<and> returnedSlots messages r ! i = Fresh v)"
      by (elim conjE allE[of _ i]) simp
    have same: "returnedSlots messages r ! i = Same"
    proof (rule ccontr)
      assume "returnedSlots messages r ! i \<noteq> Same"
      with alt obtain meta' v where m': "meta' \<in> set ?metas" "index meta' = i"
        and d: "loopDecision S ?P ?pe ?starts meta' = Inr (Fresh v)" by blast
      from prot[OF m'] have "index meta' \<in> ?P" .
      from loopDecision_protected[OF this] d show False by simp
    qed
    with returnedList_nth[OF len assms(1)] show ?thesis by (simp add: slotValue_def)
  qed
  from strategies_identity_on_user_system[OF assms(2)] p pipeline show ?thesis by blast
qed

theorem user_system_never_altered_witness:
  "(3::nat) < length exampleMessages
   \<and> getProp (exampleMessages ! 3) (asc ''role'') = JStr (asc ''user'')
   \<and> applySoftPruning asciiHost (exampleMessages ! 3) exampleConfig = Inr Same
   \<and> applyHardPruning asciiHost (exampleMessages ! 3) exampleConfig = Inr Same
   \<and> applyDetailPruning asciiHost (exampleMessages ! 3) exampleConfig = Inr Same
   \<and> 3 \<in> protectedIndicesOf NaN NaN (buildMessageMeta asciiHost exampleMessages)
   \<and> applyPruningWithStats asciiHost exampleMessages exampleConfig
         (createStrategies asciiHost exampleConfig) = Inr (NewArray exampleOut, exampleStats)
   \<and> returnedSlots exampleMessages (NewArray exampleOut) ! 3 = Same
   \<and> returnedList exampleMessages (NewArray exampleOut) ! 3 = exampleMessages ! 3"
proof -
  have a: "(3::nat) < length exampleMessages" by (simp add: exampleMessages_def)
  have b: "getProp (exampleMessages ! 3) (asc ''role'') = JStr (asc ''user'')"
    by (simp add: exampleMessages_def mkMessage_def)
  from user_system_never_altered[OF a disjI1[OF b], of asciiHost exampleConfig NaN NaN
      "createStrategies asciiHost exampleConfig" "NewArray exampleOut" exampleStats]
    example_run a b
  show ?thesis by blast
qed

text \<open>
  C2. A call of \<open>applyPruningWithStats\<close> that returns never alters an entry whose
  index is at least the length of the list minus \<open>keep_recent_messages\<close>, nor a
  message whose token span starts at or after the total token count minus
  \<open>keep_recent_tokens\<close>: the slot of such an entry still holds the entry of the input.
\<close>

theorem recent_tail_never_altered:
  assumes run: "applyPruningWithStats H messages cfg S = Inr (r, stats)"
    and i: "i < length messages"
    and recent:
      "js_ge (Fin (of_nat i))
         (js_sub (Fin (of_nat (length messages))) (keep_recent_messages cfg))
       \<or> (\<exists>meta\<in>set (buildMessageMeta H messages). index meta = i
             \<and> js_ge (Fin (of_nat (tokenStart meta)))
                  (js_sub (Fin (of_nat (tokenEnd (last (buildMessageMeta H messages)))))
                     (keep_recent_tokens cfg)))"
  shows "returnedSlots messages r ! i = Same \<and> returnedList messages r ! i = messages ! i"
proof (rule slot_same_if_protected[OF run i])
  fix meta
  let ?metas = "buildMessageMeta H messages"
  let ?ks = "keepRecentMessageStartIndexOf cfg (length messages)"
  let ?kt = "keepRecentStartTokenOf cfg (tokenEnd (last ?metas))"
  assume m: "meta \<in> set ?metas" "index meta = i"
  have "js_ge (Fin (of_nat (index meta))) ?ks \<or> js_ge (Fin (of_nat (tokenStart meta))) ?kt"
    using recent
  proof
    assume "js_ge (Fin (of_nat i))
         (js_sub (Fin (of_nat (length messages))) (keep_recent_messages cfg))"
    then have "js_ge (Fin (of_nat (index meta))) ?ks"
      using m(2) by (simp add: keepRecentMessageStartIndexOf_def js_ge_max0)
    then show ?thesis ..
  next
    assume "\<exists>meta\<in>set ?metas. index meta = i
             \<and> js_ge (Fin (of_nat (tokenStart meta)))
                  (js_sub (Fin (of_nat (tokenEnd (last ?metas)))) (keep_recent_tokens cfg))"
    then obtain meta' where m': "meta' \<in> set ?metas" "index meta' = i"
      and g: "js_ge (Fin (of_nat (tokenStart meta')))
                  (js_sub (Fin (of_nat (tokenEnd (last ?metas)))) (keep_recent_tokens cfg))"
      by blast
    from meta_unique[OF m(1) m'(1)] m(2) m'(2) have "meta = meta'" by simp
    with g have "js_ge (Fin (of_nat (tokenStart meta))) ?kt"
      by (simp add: keepRecentStartTokenOf_def js_ge_max0)
    then show ?thesis ..
  qed
  then have "index meta \<in> protectedIndicesOf ?ks ?kt ?metas"
    using m(1) by (auto intro: protected_mem)
  then show "loopDecision S (protectedIndicesOf ?ks ?kt ?metas) ?kt
      (zoneStarts H cfg (tokenEnd (last ?metas))) meta = Inr Same"
    by (rule loopDecision_protected)
qed

theorem recent_tail_never_altered_witness:
  "applyPruningWithStats asciiHost exampleMessages exampleConfig
       (createStrategies asciiHost exampleConfig) = Inr (NewArray exampleOut, exampleStats)
   \<and> (4::nat) < length exampleMessages
   \<and> js_ge (Fin (of_nat 4))
        (js_sub (Fin (of_nat (length exampleMessages))) (keep_recent_messages exampleConfig))
   \<and> returnedSlots exampleMessages (NewArray exampleOut) ! 4 = Same
   \<and> returnedList exampleMessages (NewArray exampleOut) ! 4 = exampleMessages ! 4"
proof -
  have a: "(4::nat) < length exampleMessages" by (simp add: exampleMessages_def)
  have g: "js_ge (Fin (of_nat 4))
        (js_sub (Fin (of_nat (length exampleMessages))) (keep_recent_messages exampleConfig))"
    by (simp add: exampleMessages_def exampleConfig_def testDefaults_def js_ge_def)
  from recent_tail_never_altered[OF example_run a disjI1[OF g]] example_run a g
  show ?thesis by blast
qed

text \<open>
  C9, as amended. When a call of \<open>applyPruningWithStats\<close> reports a change, the
  statistic \<open>contextTokensBefore\<close> is the context estimate of the input list,
  \<open>contextTokensAfter\<close> that of the returned list, and \<open>deletedTokens\<close> is their
  difference clamped at 0. So \<open>contextTokensBefore - deletedTokens\<close> is the smaller of
  the two estimates: it is \<open>contextTokensAfter\<close> unless the pass made the estimate
  grow.
\<close>

theorem stats_after_change:
  assumes run: "applyPruningWithStats H messages cfg S = Inr (NewArray out, stats)"
  shows "contextTokensBefore stats = estimateContextTokens H messages
    \<and> contextTokensAfter stats = estimateContextTokens H (returnedList messages (NewArray out))
    \<and> int (deletedTokens stats)
        = max 0 (int (contextTokensBefore stats) - int (contextTokensAfter stats))
    \<and> contextTokensBefore stats - deletedTokens stats
        = min (contextTokensBefore stats) (contextTokensAfter stats)"
proof -
  let ?metas = "buildMessageMeta H messages"
  from run have ne: "?metas \<noteq> []"
    by (auto simp: applyPruningWithStats_def Let_def split: if_splits)
  from run ne obtain st0 out' ch st where
    loop: "pruneLoop H S (protectedOf H cfg messages)
             (keepRecentStartTokenOf cfg (totalTokensOf H messages))
             (zoneStarts H cfg (totalTokensOf H messages)) ?metas
             (replicate (length messages) Same, False, st0) = Inr (out', ch, st)"
    and st0: "contextTokensBefore st0 = tokenEnd (last ?metas)"
    and res: "ch" "out = out'"
      "stats = st\<lparr>contextTokensAfter := estimateContextTokens H (map2 slotValue messages out'),
                 deletedTokens := nat (max 0 (int (contextTokensBefore st)
                     - int (estimateContextTokens H (map2 slotValue messages out'))))\<rparr>"
    by (auto simp: applyPruningWithStats_def Let_def protectedOf_def totalTokensOf_def
        split: sum.splits prod.splits if_splits)
  from pruneLoop_result[OF loop] st0 have b: "contextTokensBefore st = tokenEnd (last ?metas)"
    by simp
  with total_is_context_estimate[OF ne] res show ?thesis
    by (simp add: returnedList_def)
qed

theorem stats_after_change_witness:
  "applyPruningWithStats asciiHost exampleMessages exampleConfig
       (createStrategies asciiHost exampleConfig) = Inr (NewArray exampleOut, exampleStats)
   \<and> contextTokensBefore exampleStats = estimateContextTokens asciiHost exampleMessages
   \<and> contextTokensAfter exampleStats
       = estimateContextTokens asciiHost (returnedList exampleMessages (NewArray exampleOut))
   \<and> contextTokensBefore exampleStats - deletedTokens exampleStats
       = min (contextTokensBefore exampleStats) (contextTokensAfter exampleStats)"
  using stats_after_change[OF example_run] example_run by blast

text \<open>
  C9 as stated fails where a placeholder is longer than the content it replaces: in the
  example the estimate grows from 28 to 30 tokens and \<open>deletedTokens\<close> is 0.
\<close>

theorem stats_invariant_counterexample:
  "applyPruningWithStats asciiHost exampleMessages exampleConfig
       (createStrategies asciiHost exampleConfig) = Inr (NewArray exampleOut, exampleStats)
   \<and> contextTokensBefore exampleStats - deletedTokens exampleStats
       \<noteq> contextTokensAfter exampleStats"
  using example_run by (simp add: exampleStats_def)

text \<open>
  C10. The list a call of \<open>applyPruningWithStats\<close> returns has the length of the input.
  At each index it holds the entry of the input, or the new object that a strategy of
  the table returned for the entry of the input at that index. It holds the entry of
  the input at every index that is not a message object, at every protected index and
  at the index of every message whose zone is \<open>none\<close>.
\<close>

theorem returned_list_shape:
  assumes run: "applyPruningWithStats H messages cfg S = Inr (r, stats)"
  shows "length (returnedList messages r) = length messages
   \<and> length (returnedSlots messages r) = length messages
   \<and> (\<forall>i<length messages.
        (returnedSlots messages r ! i = Same \<and> returnedList messages r ! i = messages ! i)
        \<or> (\<exists>zone apply v. zone \<noteq> Zone_none \<and> S zone = Some apply
              \<and> apply (messages ! i) = Inr (Fresh v)
              \<and> returnedSlots messages r ! i = Fresh v \<and> returnedList messages r ! i = v))
   \<and> (\<forall>i<length messages. \<not> is_object (messages ! i) \<longrightarrow> returnedSlots messages r ! i = Same)
   \<and> (\<forall>i<length messages. i \<in> protectedOf H cfg messages \<longrightarrow> returnedSlots messages r ! i = Same)
   \<and> (\<forall>meta\<in>set (buildMessageMeta H messages).
        (case zoneStarts H cfg (totalTokensOf H messages) of
           (s, h, d) \<Rightarrow> resolveZone (tokenMid meta) s h d) = Zone_none
        \<longrightarrow> returnedSlots messages r ! index meta = Same)"
proof -
  let ?metas = "buildMessageMeta H messages"
  let ?pe = "keepRecentStartTokenOf cfg (totalTokensOf H messages)"
  let ?P = "protectedOf H cfg messages"
  let ?starts = "zoneStarts H cfg (totalTokensOf H messages)"
  let ?slots = "returnedSlots messages r"
  from apply_slots[OF run] have len: "length ?slots = length messages" by (rule conjunct1)
  have len': "length (returnedList messages r) = length messages"
    using len by (rule returnedList_length)
  have each: "(?slots ! i = Same \<and> returnedList messages r ! i = messages ! i)
        \<or> (\<exists>zone apply v. zone \<noteq> Zone_none \<and> S zone = Some apply
              \<and> apply (messages ! i) = Inr (Fresh v)
              \<and> ?slots ! i = Fresh v \<and> returnedList messages r ! i = v)"
    if i: "i < length messages" for i
  proof -
    note val = returnedList_nth[OF len i]
    from apply_slots'[OF run i] show ?thesis
    proof
      assume "?slots ! i = Same"
      with val show ?thesis by (simp add: slotValue_def)
    next
      assume "\<exists>meta\<in>set ?metas. \<exists>v. index meta = i
          \<and> loopDecision S ?P ?pe ?starts meta = Inr (Fresh v) \<and> ?slots ! i = Fresh v"
      then obtain meta v where m: "meta \<in> set ?metas" "index meta = i"
        and d: "loopDecision S ?P ?pe ?starts meta = Inr (Fresh v)"
        and s: "?slots ! i = Fresh v" by blast
      from loopDecision_Fresh(3)[OF d] obtain zone f where
        z: "zone \<noteq> Zone_none" "S zone = Some f" "f (message meta) = Inr (Fresh v)"
        by blast
      from meta_props[OF m(1)] m(2) have "message meta = messages ! i" by simp
      with z s val show ?thesis by (auto simp: slotValue_def)
    qed
  qed
  have same_if: "?slots ! i = Same"
    if i: "i < length messages"
      and none: "\<And>meta v. meta \<in> set ?metas \<Longrightarrow> index meta = i \<Longrightarrow>
              loopDecision S ?P ?pe ?starts meta \<noteq> Inr (Fresh v)" for i
    using apply_slots'[OF run i] none by blast
  have nonobj: "?slots ! i = Same" if i: "i < length messages" and o: "\<not> is_object (messages ! i)" for i
  proof (rule same_if[OF i])
    fix meta v assume "meta \<in> set ?metas" "index meta = i"
    with meta_props[of meta H messages] o show "loopDecision S ?P ?pe ?starts meta \<noteq> Inr (Fresh v)"
      by auto
  qed
  have prot: "?slots ! i = Same" if i: "i < length messages" and p: "i \<in> ?P" for i
  proof (rule same_if[OF i])
    fix meta v assume "meta \<in> set ?metas" "index meta = i"
    with p have "index meta \<in> ?P" by simp
    from loopDecision_protected[OF this]
    show "loopDecision S ?P ?pe ?starts meta \<noteq> Inr (Fresh v)" by simp
  qed
  have znone: "?slots ! index meta = Same"
    if m: "meta \<in> set ?metas"
      and z: "(case ?starts of (s, h, d) \<Rightarrow> resolveZone (tokenMid meta) s h d) = Zone_none" for meta
  proof (rule same_if)
    from meta_props[OF m] show "index meta < length messages" by simp
  next
    fix meta' v assume m': "meta' \<in> set ?metas" "index meta' = index meta"
    from meta_unique[OF m'(1) m m'(2)] have "meta' = meta" .
    with z loopDecision_Fresh(2)[of S ?P ?pe ?starts meta v]
    show "loopDecision S ?P ?pe ?starts meta' \<noteq> Inr (Fresh v)" by auto
  qed
  from len len' each nonobj prot znone show ?thesis by blast
qed

theorem returned_list_shape_witness:
  "applyPruningWithStats asciiHost exampleMessages exampleConfig
       (createStrategies asciiHost exampleConfig) = Inr (NewArray exampleOut, exampleStats)
   \<and> length (returnedList exampleMessages (NewArray exampleOut)) = length exampleMessages
   \<and> \<not> is_object (exampleMessages ! 0)
   \<and> returnedSlots exampleMessages (NewArray exampleOut) ! 0 = Same
   \<and> buildMessageMeta asciiHost exampleMessages ! 0 \<in> set (buildMessageMeta asciiHost exampleMessages)
   \<and> (case zoneStarts asciiHost exampleConfig (totalTokensOf asciiHost exampleMessages) of
         (s, h, d) \<Rightarrow> resolveZone (tokenMid (buildMessageMeta asciiHost exampleMessages ! 0)) s h d)
       = Zone_none
   \<and> returnedSlots exampleMessages (NewArray exampleOut)
         ! index (buildMessageMeta asciiHost exampleMessages ! 0) = Same
   \<and> 3 \<in> protectedOf asciiHost exampleConfig exampleMessages
   \<and> returnedSlots exampleMessages (NewArray exampleOut) ! 3 = Same
   \<and> createStrategies asciiHost exampleConfig Zone_hard
         = Some (\<lambda>message. applyHardPruning asciiHost message exampleConfig)
   \<and> applyHardPruning asciiHost (exampleMessages ! 2) exampleConfig
         = Inr (Fresh (mkMessage ''tool_result'' (JStr (asc ''[CLEARED]''))))
   \<and> returnedList exampleMessages (NewArray exampleOut) ! 2
         = mkMessage ''tool_result'' (JStr (asc ''[CLEARED]''))"
proof -
  note shape = returned_list_shape[OF example_run]
  have l: "length exampleMessages = 5" by (simp add: exampleMessages_def)
  have o: "\<not> is_object (exampleMessages ! 0)" by (simp add: exampleMessages_def)
  have m: "buildMessageMeta asciiHost exampleMessages ! 0 \<in> set (buildMessageMeta asciiHost exampleMessages)"
    by (simp add: example_metas)
  have p: "3 \<in> protectedOf asciiHost exampleConfig exampleMessages"
    by (simp add: example_protected)
  have s: "createStrategies asciiHost exampleConfig Zone_hard
         = Some (\<lambda>message. applyHardPruning asciiHost message exampleConfig)"
    by (simp add: createStrategies_def)
  have v: "returnedList exampleMessages (NewArray exampleOut) ! 2
         = mkMessage ''tool_result'' (JStr (asc ''[CLEARED]''))"
    by (simp add: returnedList_def exampleMessages_def exampleOut_def slotValue_def)
  from shape l o have s0: "returnedSlots exampleMessages (NewArray exampleOut) ! 0 = Same" by simp
  from shape l p have s3: "returnedSlots exampleMessages (NewArray exampleOut) ! 3 = Same" by simp
  from shape m example_zone_none
  have s1: "returnedSlots exampleMessages (NewArray exampleOut)
         ! index (buildMessageMeta asciiHost exampleMessages ! 0) = Same" by blast
  from shape have "length (returnedList exampleMessages (NewArray exampleOut)) = length exampleMessages"
    by (rule conjunct1)
  with example_run o s0 m example_zone_none s1 p s3 s example_hard v show ?thesis by blast
qed

text \<open>
  C5, as amended. The three zone boundaries of \<open>applyPruningWithStats\<close> are
  non-decreasing whatever the configured thresholds are: the hard boundary is raised to
  the soft one and the detail boundary to the hard one. A finite threshold \<open>v\<close> with
  \<open>0 \<le> v < 1\<close> resolves to the floor of the product of the total and \<open>v\<close> as binary64
  computes it (the host's \<open>floatProduct\<close>); a finite threshold of at least 1 resolves to
  its floor, capped at the total, which lies between 0 and the total; a negative or
  non-finite threshold resolves to 0.
\<close>

theorem zone_boundaries_resolved:
  "(case zoneStarts H cfg n of (s, h, d) \<Rightarrow> s \<le> h \<and> h \<le> d)
   \<and> zoneStarts H cfg n =
       (resolveThresholdToToken H (soft_threshold cfg) n,
        max (resolveThresholdToToken H (soft_threshold cfg) n)
            (resolveThresholdToToken H (hard_threshold cfg) n),
        max (max (resolveThresholdToToken H (soft_threshold cfg) n)
                 (resolveThresholdToToken H (hard_threshold cfg) n))
            (resolveThresholdToToken H (detail_threshold cfg) n))
   \<and> (0 \<le> v \<and> v < 1
        \<longrightarrow> resolveThresholdToToken H (Fin v) n = \<lfloor>floatProduct H n v\<rfloor>)
   \<and> (1 \<le> w \<longrightarrow> resolveThresholdToToken H (Fin w) n = min (int n) \<lfloor>w\<rfloor>
                 \<and> 0 \<le> resolveThresholdToToken H (Fin w) n
                 \<and> resolveThresholdToToken H (Fin w) n \<le> int n)
   \<and> (u < 0 \<longrightarrow> resolveThresholdToToken H (Fin u) n = 0)
   \<and> (\<not> isFinite x \<longrightarrow> resolveThresholdToToken H x n = 0)"
proof -
  have a: "(case zoneStarts H cfg n of (s, h, d) \<Rightarrow> s \<le> h \<and> h \<le> d)"
    by (rule zoneStarts_ordered)
  have b: "zoneStarts H cfg n =
       (resolveThresholdToToken H (soft_threshold cfg) n,
        max (resolveThresholdToToken H (soft_threshold cfg) n)
            (resolveThresholdToToken H (hard_threshold cfg) n),
        max (max (resolveThresholdToToken H (soft_threshold cfg) n)
                 (resolveThresholdToToken H (hard_threshold cfg) n))
            (resolveThresholdToToken H (detail_threshold cfg) n))"
    by (simp add: zoneStarts_def Let_def max_def)
  have c: "0 \<le> v \<and> v < 1
        \<longrightarrow> resolveThresholdToToken H (Fin v) n = \<lfloor>floatProduct H n v\<rfloor>"
    by simp
  have d: "1 \<le> w \<longrightarrow> resolveThresholdToToken H (Fin w) n = min (int n) \<lfloor>w\<rfloor>
                 \<and> 0 \<le> resolveThresholdToToken H (Fin w) n
                 \<and> resolveThresholdToToken H (Fin w) n \<le> int n"
  proof
    assume w: "1 \<le> w"
    then have "1 \<le> \<lfloor>w\<rfloor>" by simp
    with w show "resolveThresholdToToken H (Fin w) n = min (int n) \<lfloor>w\<rfloor>
                 \<and> 0 \<le> resolveThresholdToToken H (Fin w) n
                 \<and> resolveThresholdToToken H (Fin w) n \<le> int n" by simp
  qed
  have e: "u < 0 \<longrightarrow> resolveThresholdToToken H (Fin u) n = 0" by simp
  have f: "\<not> isFinite x \<longrightarrow> resolveThresholdToToken H x n = 0" by (cases x) simp_all
  from a b c d e f show ?thesis by blast
qed

theorem zone_boundaries_resolved_witness:
  "zoneStarts asciiHost invertedConfig 100 = (75, 75, 75)
   \<and> (0::rat) \<le> 1 / 4 \<and> (1 / 4 :: rat) < 1
   \<and> resolveThresholdToToken asciiHost (Fin (1 / 4)) 100
       = \<lfloor>floatProduct asciiHost 100 (1 / 4)\<rfloor>
   \<and> \<lfloor>floatProduct asciiHost 100 (1 / 4)\<rfloor> = 25
   \<and> (1::rat) \<le> 250
   \<and> resolveThresholdToToken asciiHost (Fin 250) 100 = min (int 100) \<lfloor>250 :: rat\<rfloor>
   \<and> (- (1 / 2) :: rat) < 0
   \<and> resolveThresholdToToken asciiHost (Fin (- (1 / 2))) 100 = 0
   \<and> \<not> isFinite NaN
   \<and> resolveThresholdToToken asciiHost NaN 100 = 0"
proof -
  have h1: "(0::rat) \<le> 1 / 4 \<and> (1 / 4 :: rat) < 1" by simp
  have h2: "(1::rat) \<le> 250" by simp
  have h3: "(- (1 / 2) :: rat) < 0" by simp
  have h4: "\<not> isFinite NaN" by simp
  have p: "\<lfloor>floatProduct asciiHost 100 (1 / 4)\<rfloor> = 25"
    by (simp add: asciiHost_def)
  have v: "resolveThresholdToToken asciiHost (soft_threshold invertedConfig) 100 = 75"
    "resolveThresholdToToken asciiHost (hard_threshold invertedConfig) 100 = 50"
    "resolveThresholdToToken asciiHost (detail_threshold invertedConfig) 100 = 25"
    by (simp_all add: invertedConfig_def testDefaults_def asciiHost_def)
  from zone_boundaries_resolved[of asciiHost invertedConfig 100 "1 / 4" 250 "- (1 / 2)" NaN]
  have z: "zoneStarts asciiHost invertedConfig 100 = (75, 75, 75)"
    by (simp only: v) simp
  from zone_boundaries_resolved[of asciiHost invertedConfig 100 "1 / 4" 250 "- (1 / 2)" NaN]
    h1 h2 h3 h4 z p
  show ?thesis by blast
qed

text \<open>
  C5 as stated fails for a negative threshold, which is below 1: with 100 tokens the
  threshold \<open>-1/2\<close> resolves to 0, and the floor of 100 times \<open>-1/2\<close>, a product that
  binary64 computes without rounding, is \<open>-50\<close>.
\<close>

theorem threshold_negative_counterexample:
  "soft_threshold (invertedConfig\<lparr>soft_threshold := Fin (- (1 / 2))\<rparr>) = Fin (- (1 / 2))
   \<and> (- (1 / 2) :: rat) < 1
   \<and> resolveThresholdToToken asciiHost (Fin (- (1 / 2))) 100 = 0
   \<and> \<lfloor>floatProduct asciiHost 100 (- (1 / 2))\<rfloor> = - 50
   \<and> fst (zoneStarts asciiHost (invertedConfig\<lparr>soft_threshold := Fin (- (1 / 2))\<rparr>) 100) = 0"
  by (simp add: zoneStarts_def invertedConfig_def testDefaults_def asciiHost_def Let_def)

text \<open>
  C6, as amended. For a tool-result message that is not image-skipped and whose content
  has a unified text: when the length of that text is at most \<open>soft_trim.max_chars\<close>,
  \<open>applySoftPruning\<close> returns the message itself; when it exceeds \<open>max_chars\<close>, the
  new content is the truncated text in the shape of the original content (a string, or
  a single text block), and that text contains the elision marker and the annotation of
  the original size in characters.
\<close>

theorem soft_pruning_threshold:
  assumes "isToolResultRole (roleOf H msg)" and "\<not> imageSkipped H config msg"
    and "toUnifiedText H (getProp msg (asc ''content'')) = Some raw"
  shows "(js_le (Fin (of_nat (length raw))) (max_chars (soft_trim config))
            \<longrightarrow> applySoftPruning H msg config = Inr Same)
     \<and> (js_gt (Fin (of_nat (length raw))) (max_chars (soft_trim config))
            \<longrightarrow> (\<exists>m'. applySoftPruning H msg config = Inr (Fresh m')
                   \<and> getProp m' (asc ''content'')
                       = preserveContentShape (getProp msg (asc ''content''))
                           (softText config raw)
                   \<and> (getProp m' (asc ''content'') = JStr (softText config raw)
                        \<or> getProp m' (asc ''content'') = JArr [textBlock (softText config raw)])
                   \<and> str_includes (softText config raw) (asc ''... (truncated)'')
                   \<and> str_includes (softText config raw)
                        (asc ''[Original size: '' @ decimal (length raw)
                         @ asc '' characters]'')))"
proof (intro conjI impI)
  assume "js_le (Fin (of_nat (length raw))) (max_chars (soft_trim config))"
  with assms show "applySoftPruning H msg config = Inr Same"
    by (simp add: applySoftPruning_def tool_role_not_raises not_skipped_guard)
next
  let ?c = "getProp msg (asc ''content'')"
  let ?m' = "withContent msg (preserveContentShape ?c (softText config raw))"
  assume "js_gt (Fin (of_nat (length raw))) (max_chars (soft_trim config))"
  then have "\<not> js_le (Fin (of_nat (length raw))) (max_chars (soft_trim config))"
    by (rule js_gt_not_le)
  with assms have r: "applySoftPruning H msg config = Inr (Fresh ?m')"
    by (simp add: applySoftPruning_def tool_role_not_raises not_skipped_guard)
  have c: "getProp ?m' (asc ''content'') = preserveContentShape ?c (softText config raw)"
    by (rule getProp_withContent)
  have s: "preserveContentShape ?c (softText config raw) = JStr (softText config raw)
     \<or> preserveContentShape ?c (softText config raw) = JArr [textBlock (softText config raw)]"
    by (cases ?c) (simp_all add: preserveContentShape_def)
  from r c s softText_marker[of config raw] softText_size[of config raw]
  show "\<exists>m'. applySoftPruning H msg config = Inr (Fresh m')
                   \<and> getProp m' (asc ''content'')
                       = preserveContentShape (getProp msg (asc ''content''))
                           (softText config raw)
                   \<and> (getProp m' (asc ''content'') = JStr (softText config raw)
                        \<or> getProp m' (asc ''content'') = JArr [textBlock (softText config raw)])
                   \<and> str_includes (softText config raw) (asc ''... (truncated)'')
                   \<and> str_includes (softText config raw)
                        (asc ''[Original size: '' @ decimal (length raw)
                         @ asc '' characters]'')"
    by (intro exI[of _ ?m']) simp
qed

theorem soft_pruning_threshold_witness:
  "isToolResultRole (roleOf asciiHost (exampleMessages ! 2))
   \<and> \<not> imageSkipped asciiHost exampleConfig (exampleMessages ! 2)
   \<and> toUnifiedText asciiHost (getProp (exampleMessages ! 2) (asc ''content'')) = Some (asc ''x'')
   \<and> js_le (Fin (of_nat (length (asc ''x'')))) (max_chars (soft_trim exampleConfig))
   \<and> applySoftPruning asciiHost (exampleMessages ! 2) exampleConfig = Inr Same
   \<and> isToolResultRole (roleOf asciiHost longMessage)
   \<and> \<not> imageSkipped asciiHost exampleConfig longMessage
   \<and> toUnifiedText asciiHost (getProp longMessage (asc ''content'')) = Some (replicate 50 65)
   \<and> js_gt (Fin (of_nat (length (replicate 50 (65::nat))))) (max_chars (soft_trim exampleConfig))
   \<and> (\<exists>m'. applySoftPruning asciiHost longMessage exampleConfig = Inr (Fresh m')
         \<and> getProp m' (asc ''content'') = JStr (softText exampleConfig (replicate 50 65)))
   \<and> str_includes (softText exampleConfig (replicate 50 65)) (asc ''... (truncated)'')"
proof -
  have le: "js_le (Fin (of_nat (length (asc ''x'')))) (max_chars (soft_trim exampleConfig))"
    by (simp add: asc_def exampleConfig_def testDefaults_def)
  have gt: "js_gt (Fin (of_nat (length (replicate 50 (65::nat))))) (max_chars (soft_trim exampleConfig))"
    by (simp add: js_gt_def exampleConfig_def testDefaults_def)
  have c: "preserveContentShape (getProp longMessage (asc ''content''))
             (softText exampleConfig (replicate 50 65)) = JStr (softText exampleConfig (replicate 50 65))"
    by (simp add: longMessage_def mkMessage_def preserveContentShape_def asc_def)
  from soft_pruning_threshold[OF example_tool_role example_not_skipped example_unified] le
  have a: "applySoftPruning asciiHost (exampleMessages ! 2) exampleConfig = Inr Same" by blast
  from soft_pruning_threshold[OF long_tool_role long_not_skipped long_unified] gt
  obtain m' where m': "applySoftPruning asciiHost longMessage exampleConfig = Inr (Fresh m')"
    "getProp m' (asc ''content'') = preserveContentShape (getProp longMessage (asc ''content''))
             (softText exampleConfig (replicate 50 65))"
    "str_includes (softText exampleConfig (replicate 50 65)) (asc ''... (truncated)'')"
    by blast
  from m' c have b: "\<exists>m'. applySoftPruning asciiHost longMessage exampleConfig = Inr (Fresh m')
         \<and> getProp m' (asc ''content'') = JStr (softText exampleConfig (replicate 50 65))"
    by auto
  from example_tool_role example_not_skipped example_unified le a
    long_tool_role long_not_skipped long_unified gt b m'(3)
  show ?thesis by blast
qed

text \<open>
  C6 as stated fails for a tool result that names an image while
  \<open>skip_tools_with_images\<close> is set: its text is 60 characters long, over the limit of
  40, and it is returned as it is, without a marker.
\<close>

theorem soft_pruning_image_counterexample:
  "isToolResultRole (roleOf asciiHost imageMessage)
   \<and> toUnifiedText asciiHost (getProp imageMessage (asc ''content''))
       = Some (asc ''chart.png '' @ replicate 50 65)
   \<and> js_gt (Fin (of_nat (length (asc ''chart.png '' @ replicate 50 65))))
        (max_chars (soft_trim testDefaults))
   \<and> applySoftPruning asciiHost imageMessage testDefaults = Inr Same
   \<and> \<not> str_includes (asc ''chart.png '' @ replicate 50 65) (asc ''... (truncated)'')"
  by code_simp

text \<open>
  C7, as amended. For a tool-result message that is not image-skipped,
  \<open>applyHardPruning\<close> returns a new message whose content is
  \<open>hard_clear_placeholder\<close> in the shape of the original content: the placeholder
  string for a string (and for a content that is neither a string nor a block
  sequence), a single text block holding the placeholder for a block sequence. Every
  other property of the message is kept.
\<close>

theorem hard_pruning_placeholder:
  assumes "isToolResultRole (roleOf H msg)" and "\<not> imageSkipped H config msg"
  shows "\<exists>m'. applyHardPruning H msg config = Inr (Fresh m')
     \<and> getProp m' (asc ''content'')
         = preserveContentShape (getProp msg (asc ''content'')) (hard_clear_placeholder config)
     \<and> (\<forall>s. getProp msg (asc ''content'') = JStr s
            \<longrightarrow> getProp m' (asc ''content'') = JStr (hard_clear_placeholder config))
     \<and> (\<forall>blocks. getProp msg (asc ''content'') = JArr blocks
            \<longrightarrow> getProp m' (asc ''content'') = JArr [textBlock (hard_clear_placeholder config)])
     \<and> (\<forall>k. k \<noteq> asc ''content'' \<longrightarrow> getProp m' k = getProp msg k)"
proof -
  let ?c = "getProp msg (asc ''content'')"
  let ?m' = "withContent msg (preserveContentShape ?c (hard_clear_placeholder config))"
  from tool_role_object[OF assms(1)] obtain kvs where kvs: "msg = JObj kvs" ..
  have r: "applyHardPruning H msg config = Inr (Fresh ?m')"
    using assms by (rule hard_ok)
  have c: "getProp ?m' (asc ''content'') = preserveContentShape ?c (hard_clear_placeholder config)"
    by (rule getProp_withContent)
  have o: "\<forall>k. k \<noteq> asc ''content'' \<longrightarrow> getProp ?m' k = getProp msg k"
    unfolding kvs using getProp_withContent_other by blast
  have s: "\<forall>s. ?c = JStr s \<longrightarrow> getProp ?m' (asc ''content'') = JStr (hard_clear_placeholder config)"
    by (simp add: getProp_withContent preserveContentShape_def)
  have b: "\<forall>blocks. ?c = JArr blocks
      \<longrightarrow> getProp ?m' (asc ''content'') = JArr [textBlock (hard_clear_placeholder config)]"
    by (simp add: getProp_withContent preserveContentShape_def)
  from r c s b o show ?thesis by blast
qed

theorem hard_pruning_placeholder_witness:
  "isToolResultRole (roleOf asciiHost (exampleMessages ! 2))
   \<and> \<not> imageSkipped asciiHost exampleConfig (exampleMessages ! 2)
   \<and> getProp (exampleMessages ! 2) (asc ''content'') = JStr (asc ''x'')
   \<and> (\<exists>m'. applyHardPruning asciiHost (exampleMessages ! 2) exampleConfig = Inr (Fresh m')
         \<and> getProp m' (asc ''content'') = JStr (hard_clear_placeholder exampleConfig))
   \<and> isToolResultRole (roleOf asciiHost blockMessage)
   \<and> \<not> imageSkipped asciiHost exampleConfig blockMessage
   \<and> getProp blockMessage (asc ''content'')
       = JArr [textBlock (asc ''rows: 3''), JObj [(asc ''type'', JStr (asc ''tool_use''))]]
   \<and> (\<exists>m'. applyHardPruning asciiHost blockMessage exampleConfig = Inr (Fresh m')
         \<and> getProp m' (asc ''content'') = JArr [textBlock (hard_clear_placeholder exampleConfig)])"
proof -
  have c1: "getProp (exampleMessages ! 2) (asc ''content'') = JStr (asc ''x'')"
    by (simp add: exampleMessages_def mkMessage_def asc_def)
  have c2: "getProp blockMessage (asc ''content'')
       = JArr [textBlock (asc ''rows: 3''), JObj [(asc ''type'', JStr (asc ''tool_use''))]]"
    by (simp add: blockMessage_def mkMessage_def asc_def)
  from hard_pruning_placeholder[OF example_tool_role example_not_skipped] c1
  have a: "\<exists>m'. applyHardPruning asciiHost (exampleMessages ! 2) exampleConfig = Inr (Fresh m')
         \<and> getProp m' (asc ''content'') = JStr (hard_clear_placeholder exampleConfig)"
    by blast
  from hard_pruning_placeholder[OF block_tool_role block_not_skipped] c2
  have b: "\<exists>m'. applyHardPruning asciiHost blockMessage exampleConfig = Inr (Fresh m')
         \<and> getProp m' (asc ''content'') = JArr [textBlock (hard_clear_placeholder exampleConfig)]"
    by blast
  from example_tool_role example_not_skipped c1 a block_tool_role block_not_skipped c2 b
  show ?thesis by blast
qed

text \<open>
  C7 as stated fails for a tool result that names an image while
  \<open>skip_tools_with_images\<close> is set: it is returned as it is.
\<close>

theorem hard_pruning_image_counterexample:
  "isToolResultRole (roleOf asciiHost imageMessage)
   \<and> imageSkipped asciiHost testDefaults imageMessage
   \<and> applyHardPruning asciiHost imageMessage testDefaults = Inr Same
   \<and> getProp imageMessage (asc ''content'') \<noteq> JStr (hard_clear_placeholder testDefaults)"
  by code_simp

text \<open>
  The trigger and cooldown gate. For an invocation with a non-empty list whose context
  estimate \<open>T\<close> is at or above \<open>pruning_threshold\<close>: the handler leaves by the
  cooldown exit only when the session's \<open>pruneCount\<close> is positive and \<open>T\<close> minus
  \<open>lastTriggerTokenCount\<close> is below \<open>trigger_every_n_tokens\<close>, and then the session
  table and the list are untouched; it does leave by that exit when \<open>pruneCount\<close> is
  positive and the growth, clamped at 0, is below \<open>trigger_every_n_tokens\<close>.
  Otherwise, so in particular when \<open>pruneCount\<close> is 0, it runs
  \<open>applyPruningWithStats\<close>: an exception of the pass is the handler's, and when the
  pass returns, the session's \<open>lastTriggerTokenCount\<close> becomes \<open>T\<close> and
  \<open>lastTriggeredAt\<close> the current time whether or not anything changed, and
  \<open>pruneCount\<close> grows by one exactly when the handler's comparison
  \<open>sameArrayShallow\<close> finds the returned list different from the input. For a list with
  no NaN entry that comparison finds a difference exactly when the pass returned a new
  list, that is, when it replaced a message.
\<close>

lemma gate_cooldown_and_trigger_state:
  assumes ne: "messages \<noteq> []"
    and above: "js_ge (Fin (of_nat (estimateContextTokens H messages))) (pruning_threshold config)"
  shows
    "(createBeforeAgentStartHandler H config sessionState now (Some messages) ctx
        = Inr (ss', ms', Cooldown)
      \<longrightarrow> 0 < pruneCount (stateOrInitial sessionState (sessionKeyOf ctx))
          \<and> js_lt (Fin (of_int (int (estimateContextTokens H messages)
                 - int (lastTriggerTokenCount (stateOrInitial sessionState (sessionKeyOf ctx))))))
               (trigger_every_n_tokens config)
          \<and> ss' = sessionState \<and> ms' = Some messages)
     \<and> (0 < pruneCount (stateOrInitial sessionState (sessionKeyOf ctx))
        \<and> js_lt (Fin (of_int (max 0 (int (estimateContextTokens H messages)
                 - int (lastTriggerTokenCount (stateOrInitial sessionState (sessionKeyOf ctx)))))))
             (trigger_every_n_tokens config)
      \<longrightarrow> createBeforeAgentStartHandler H config sessionState now (Some messages) ctx
            = Inr (sessionState, Some messages, Cooldown))
     \<and> (pruneCount (stateOrInitial sessionState (sessionKeyOf ctx)) = 0
        \<or> \<not> js_lt (Fin (of_int (max 0 (int (estimateContextTokens H messages)
                 - int (lastTriggerTokenCount (stateOrInitial sessionState (sessionKeyOf ctx)))))))
               (trigger_every_n_tokens config)
      \<longrightarrow> (applyPruningWithStats H messages config (createStrategies H config) = Inl e
             \<longrightarrow> createBeforeAgentStartHandler H config sessionState now (Some messages) ctx = Inl e)
        \<and> (applyPruningWithStats H messages config (createStrategies H config) = Inr (res, stats)
             \<longrightarrow> createBeforeAgentStartHandler H config sessionState now (Some messages) ctx
                 = Inr (sessionState(sessionKeyOf ctx \<mapsto>
                          (stateOrInitial sessionState (sessionKeyOf ctx))
                            \<lparr>lastTriggerTokenCount := estimateContextTokens H messages,
                             lastTriggeredAt := now,
                             pruneCount :=
                               (if sameArrayShallow messages res
                                then pruneCount (stateOrInitial sessionState (sessionKeyOf ctx))
                                else pruneCount (stateOrInitial sessionState (sessionKeyOf ctx)) + 1)\<rparr>),
                        (if sameArrayShallow messages res then Some messages
                         else Some (case res of InputArray \<Rightarrow> []
                                    | NewArray out \<Rightarrow> map2 slotValue messages out)),
                        (if sameArrayShallow messages res then NoEligible else Pruned))))
     \<and> (applyPruningWithStats H messages config (createStrategies H config) = Inr (res, stats)
        \<and> JNum NaN \<notin> set messages
      \<longrightarrow> (sameArrayShallow messages res \<longleftrightarrow> res = InputArray))"
proof -
  let ?st = "stateOrInitial sessionState (sessionKeyOf ctx)"
  let ?T = "estimateContextTokens H messages"
  let ?cool = "0 < pruneCount ?st
        \<and> js_lt (Fin (of_int (max 0 (int ?T - int (lastTriggerTokenCount ?st)))))
             (trigger_every_n_tokens config)"
  let ?h = "createBeforeAgentStartHandler H config sessionState now (Some messages) ctx"
  note u = handler_unfold[OF ne above, where sessionState = sessionState and ctx = ctx and now = now]
  have c2: "?cool \<longrightarrow> ?h = Inr (sessionState, Some messages, Cooldown)"
    using u by simp
  have run: "?h = (case applyPruningWithStats H messages config (createStrategies H config) of
             Inl e \<Rightarrow> Inl e
           | Inr (res, stats) \<Rightarrow>
               Inr (sessionState(sessionKeyOf ctx \<mapsto>
                      ?st\<lparr>lastTriggerTokenCount := ?T, lastTriggeredAt := now,
                         pruneCount := (if sameArrayShallow messages res then pruneCount ?st
                                        else pruneCount ?st + 1)\<rparr>),
                    (if sameArrayShallow messages res then Some messages
                     else Some (case res of InputArray \<Rightarrow> []
                                | NewArray out \<Rightarrow> map2 slotValue messages out)),
                    (if sameArrayShallow messages res then NoEligible else Pruned)))"
    if "\<not> ?cool"
    using u that by (simp only: if_False)
  have c1: "?h = Inr (ss', ms', Cooldown)
      \<longrightarrow> 0 < pruneCount ?st
          \<and> js_lt (Fin (of_int (int ?T - int (lastTriggerTokenCount ?st))))
               (trigger_every_n_tokens config)
          \<and> ss' = sessionState \<and> ms' = Some messages"
  proof
    assume h: "?h = Inr (ss', ms', Cooldown)"
    have cool: ?cool
    proof (rule ccontr)
      assume "\<not> ?cool"
      from run[OF this] h show False
        by (auto split: sum.splits prod.splits if_splits)
    qed
    with c2 h have eq: "ss' = sessionState" "ms' = Some messages" by simp_all
    have "int ?T - int (lastTriggerTokenCount ?st) \<le> max 0 (int ?T - int (lastTriggerTokenCount ?st))"
      by simp
    then have "(of_int (int ?T - int (lastTriggerTokenCount ?st)) :: rat)
        \<le> of_int (max 0 (int ?T - int (lastTriggerTokenCount ?st)))"
      by (simp only: of_int_le_iff)
    from js_lt_mono_left[OF this] cool
    have "js_lt (Fin (of_int (int ?T - int (lastTriggerTokenCount ?st))))
               (trigger_every_n_tokens config)" by blast
    with cool eq show "0 < pruneCount ?st
          \<and> js_lt (Fin (of_int (int ?T - int (lastTriggerTokenCount ?st))))
               (trigger_every_n_tokens config)
          \<and> ss' = sessionState \<and> ms' = Some messages" by blast
  qed
  have c3: "pruneCount ?st = 0
        \<or> \<not> js_lt (Fin (of_int (max 0 (int ?T - int (lastTriggerTokenCount ?st)))))
               (trigger_every_n_tokens config)
      \<longrightarrow> (applyPruningWithStats H messages config (createStrategies H config) = Inl e
             \<longrightarrow> ?h = Inl e)
        \<and> (applyPruningWithStats H messages config (createStrategies H config) = Inr (res, stats)
             \<longrightarrow> ?h = Inr (sessionState(sessionKeyOf ctx \<mapsto>
                      ?st\<lparr>lastTriggerTokenCount := ?T, lastTriggeredAt := now,
                         pruneCount := (if sameArrayShallow messages res then pruneCount ?st
                                        else pruneCount ?st + 1)\<rparr>),
                    (if sameArrayShallow messages res then Some messages
                     else Some (case res of InputArray \<Rightarrow> []
                                | NewArray out \<Rightarrow> map2 slotValue messages out)),
                    (if sameArrayShallow messages res then NoEligible else Pruned)))"
  proof
    assume "pruneCount ?st = 0
        \<or> \<not> js_lt (Fin (of_int (max 0 (int ?T - int (lastTriggerTokenCount ?st)))))
               (trigger_every_n_tokens config)"
    then have "\<not> ?cool" by auto
    from run[OF this] show "(applyPruningWithStats H messages config (createStrategies H config) = Inl e
             \<longrightarrow> ?h = Inl e)
        \<and> (applyPruningWithStats H messages config (createStrategies H config) = Inr (res, stats)
             \<longrightarrow> ?h = Inr (sessionState(sessionKeyOf ctx \<mapsto>
                      ?st\<lparr>lastTriggerTokenCount := ?T, lastTriggeredAt := now,
                         pruneCount := (if sameArrayShallow messages res then pruneCount ?st
                                        else pruneCount ?st + 1)\<rparr>),
                    (if sameArrayShallow messages res then Some messages
                     else Some (case res of InputArray \<Rightarrow> []
                                | NewArray out \<Rightarrow> map2 slotValue messages out)),
                    (if sameArrayShallow messages res then NoEligible else Pruned)))"
      by simp
  qed
  have c4: "applyPruningWithStats H messages config (createStrategies H config) = Inr (res, stats)
        \<and> JNum NaN \<notin> set messages
      \<longrightarrow> (sameArrayShallow messages res \<longleftrightarrow> res = InputArray)"
    using change_detected by blast
  from c1 c2 c3 c4 show ?thesis by blast
qed

lemma gate_cooldown_and_trigger_state_example:
  "exampleMessages \<noteq> []
   \<and> js_ge (Fin (of_nat (estimateContextTokens asciiHost exampleMessages)))
        (pruning_threshold exampleConfig)
   \<and> pruneCount (stateOrInitial Map.empty (sessionKeyOf exampleContext)) = 0
   \<and> applyPruningWithStats asciiHost exampleMessages exampleConfig
        (createStrategies asciiHost exampleConfig) = Inr (NewArray exampleOut, exampleStats)
   \<and> createBeforeAgentStartHandler asciiHost exampleConfig Map.empty 5 (Some exampleMessages)
        exampleContext
       = Inr ([asc ''s1'' \<mapsto> \<lparr>lastTriggerTokenCount = 28, lastTriggeredAt = 5, pruneCount = 1\<rparr>],
              Some (returnedList exampleMessages (NewArray exampleOut)), Pruned)
   \<and> 0 < pruneCount (stateOrInitial cooledSessions (sessionKeyOf exampleContext))
   \<and> js_lt (Fin (of_int (max 0 (int (estimateContextTokens asciiHost exampleMessages)
           - int (lastTriggerTokenCount
                    (stateOrInitial cooledSessions (sessionKeyOf exampleContext)))))))
        (trigger_every_n_tokens exampleConfig)
   \<and> createBeforeAgentStartHandler asciiHost exampleConfig cooledSessions 5 (Some exampleMessages)
        exampleContext
       = Inr (cooledSessions, Some exampleMessages, Cooldown)"
proof -
  have ne: "exampleMessages \<noteq> []" by (simp add: exampleMessages_def)
  have above: "js_ge (Fin (of_nat (estimateContextTokens asciiHost exampleMessages)))
        (pruning_threshold exampleConfig)"
    by (simp add: example_total exampleConfig_def testDefaults_def js_ge_def)
  have p0: "pruneCount (stateOrInitial Map.empty (sessionKeyOf exampleContext)) = 0"
    by (simp add: stateOrInitial_def)
  have p1: "0 < pruneCount (stateOrInitial cooledSessions (sessionKeyOf exampleContext))"
    by (simp add: stateOrInitial_def cooledSessions_def example_key)
  have g: "js_lt (Fin (of_int (max 0 (int (estimateContextTokens asciiHost exampleMessages)
           - int (lastTriggerTokenCount
                    (stateOrInitial cooledSessions (sessionKeyOf exampleContext)))))))
        (trigger_every_n_tokens exampleConfig)"
    by (simp add: stateOrInitial_def cooledSessions_def example_key example_total
        exampleConfig_def testDefaults_def)
  from gate_cooldown_and_trigger_state[OF ne above, where sessionState = Map.empty
      and ctx = exampleContext and now = 5 and res = "NewArray exampleOut"
      and stats = exampleStats] p0 example_run
  have "createBeforeAgentStartHandler asciiHost exampleConfig Map.empty 5 (Some exampleMessages)
        exampleContext
      = Inr (Map.empty(sessionKeyOf exampleContext \<mapsto>
                (stateOrInitial Map.empty (sessionKeyOf exampleContext))
                  \<lparr>lastTriggerTokenCount := estimateContextTokens asciiHost exampleMessages,
                   lastTriggeredAt := 5,
                   pruneCount :=
                     (if sameArrayShallow exampleMessages (NewArray exampleOut)
                      then pruneCount (stateOrInitial Map.empty (sessionKeyOf exampleContext))
                      else pruneCount (stateOrInitial Map.empty (sessionKeyOf exampleContext)) + 1)\<rparr>),
              (if sameArrayShallow exampleMessages (NewArray exampleOut) then Some exampleMessages
               else Some (case NewArray exampleOut of InputArray \<Rightarrow> []
                          | NewArray out \<Rightarrow> map2 slotValue exampleMessages out)),
              (if sameArrayShallow exampleMessages (NewArray exampleOut) then NoEligible else Pruned))"
    by blast
  then have r1: "createBeforeAgentStartHandler asciiHost exampleConfig Map.empty 5
        (Some exampleMessages) exampleContext
       = Inr ([asc ''s1'' \<mapsto> \<lparr>lastTriggerTokenCount = 28, lastTriggeredAt = 5, pruneCount = 1\<rparr>],
              Some (returnedList exampleMessages (NewArray exampleOut)), Pruned)"
    by (simp add: example_changed example_key example_total stateOrInitial_def returnedList_def)
  from gate_cooldown_and_trigger_state[OF ne above, where sessionState = cooledSessions
      and ctx = exampleContext and now = 5] p1 g
  have r2: "createBeforeAgentStartHandler asciiHost exampleConfig cooledSessions 5
        (Some exampleMessages) exampleContext
       = Inr (cooledSessions, Some exampleMessages, Cooldown)"
    by blast
  from ne above p0 example_run r1 p1 g r2 show ?thesis by blast
qed

text \<open>
  C3 fails on the code by a slip in the handler's change test. \<open>sameArrayShallow\<close>
  compares the entries of the two lists with \<open>!==\<close>, and \<open>NaN !== NaN\<close> holds: for a
  list with a NaN entry the test reports a change even when the pass returned the input
  array itself. On the list of a NaN and three user messages, with 21 tokens against a
  threshold of 20 and a session that has not pruned yet, the pass replaces no message
  and returns the input array, yet the handler counts a prune, \<open>pruneCount\<close> becoming
  1; and, since it empties the array before it copies the result, that same array, back
  into it, it leaves the list empty.
\<close>

theorem gate_counts_unchanged_pass:
  "applyPruningWithStats asciiHost nanMessages exampleConfig
      (createStrategies asciiHost exampleConfig) = Inr (InputArray, nanStats)
   \<and> changedMessages nanStats = 0
   \<and> returnedList nanMessages InputArray = nanMessages
   \<and> estimateContextTokens asciiHost nanMessages = 21
   \<and> pruning_threshold exampleConfig = Fin 20
   \<and> createBeforeAgentStartHandler asciiHost exampleConfig Map.empty 5 (Some nanMessages)
        exampleContext
       = Inr ([asc ''s1'' \<mapsto> \<lparr>lastTriggerTokenCount = 21, lastTriggeredAt = 5, pruneCount = 1\<rparr>],
              Some [], Pruned)"
proof -
  have ne: "nanMessages \<noteq> []" by (simp add: nanMessages_def)
  have above: "js_ge (Fin (of_nat (estimateContextTokens asciiHost nanMessages)))
        (pruning_threshold exampleConfig)"
    by (simp add: nan_total exampleConfig_def testDefaults_def js_ge_def)
  have nan: "\<not> sameArrayShallow nanMessages InputArray"
    by (simp add: sameArrayShallow_InputArray nanMessages_def)
  have c: "changedMessages nanStats = 0" by (simp add: nanStats_def)
  have r: "returnedList nanMessages InputArray = nanMessages" by (simp add: returnedList_def)
  have t: "pruning_threshold exampleConfig = Fin 20"
    by (simp add: exampleConfig_def testDefaults_def)
  from handler_unfold[OF ne above, where sessionState = Map.empty and ctx = exampleContext
      and now = 5]
  have h: "createBeforeAgentStartHandler asciiHost exampleConfig Map.empty 5 (Some nanMessages)
        exampleContext
       = Inr ([asc ''s1'' \<mapsto> \<lparr>lastTriggerTokenCount = 21, lastTriggeredAt = 5, pruneCount = 1\<rparr>],
              Some [], Pruned)"
    by (simp add: nan_run nan nan_total example_key stateOrInitial_def)
  from nan_run c r nan_total t h show ?thesis by blast
qed

text \<open>
  C8, as amended. For a tool-result message that is not image-skipped and whose content
  has a unified text, \<open>applyDetailPruning\<close> returns a new message whose content, in the
  shape of the original content, is: when a marker of the list occurs in the text, the
  prefix \<open>[Process details pruned]\<close>, a blank line, and the text from the last
  occurrence of the first marker, in the order of the list, that occurs, with the white
  space at both ends removed; when no marker occurs and the text is not all white
  space, the prefix and the last non-empty paragraph, trimmed; when the text is all
  white space (so nothing can be extracted), the placeholder \<open>detail_placeholder\<close>.
\<close>

theorem detail_pruning_tool_result:
  assumes "isToolResultRole (roleOf H msg)" and "\<not> imageSkipped H config msg"
    and "toUnifiedText H (getProp msg (asc ''content'')) = Some tx"
  shows
    "(List.find (str_includes tx) markers = Some marker \<longrightarrow>
        (\<exists>i. lastIndexOf tx marker = int i \<and> occursAt tx marker i
           \<and> (\<forall>j>i. \<not> occursAt tx marker j)
           \<and> applyDetailPruning H msg config
               = Inr (Fresh (withContent msg
                   (preserveContentShape (getProp msg (asc ''content''))
                      (detailPrefix @ trim (drop i tx)))))))
     \<and> (List.find (str_includes tx) markers = None \<and> \<not> list_all isSpace tx \<longrightarrow>
          last (filter (\<lambda>p. p \<noteq> []) (map trim (splitBlank [] tx))) \<noteq> []
          \<and> applyDetailPruning H msg config
              = Inr (Fresh (withContent msg
                  (preserveContentShape (getProp msg (asc ''content''))
                     (detailPrefix
                      @ last (filter (\<lambda>p. p \<noteq> []) (map trim (splitBlank [] tx))))))))
     \<and> (list_all isSpace tx \<longrightarrow>
          applyDetailPruning H msg config
            = Inr (Fresh (withContent msg
                (preserveContentShape (getProp msg (asc ''content''))
                   (detail_placeholder config)))))"
proof -
  let ?c = "getProp msg (asc ''content'')"
  let ?paras = "filter (\<lambda>p. p \<noteq> []) (map trim (splitBlank [] tx))"
  note d = detail_tool_result[OF assms]
  have c1: "List.find (str_includes tx) markers = Some marker \<longrightarrow>
        (\<exists>i. lastIndexOf tx marker = int i \<and> occursAt tx marker i
           \<and> (\<forall>j>i. \<not> occursAt tx marker j)
           \<and> applyDetailPruning H msg config
               = Inr (Fresh (withContent msg
                   (preserveContentShape ?c (detailPrefix @ trim (drop i tx))))))"
  proof
    assume f: "List.find (str_includes tx) markers = Some marker"
    then have inc: "str_includes tx marker" and mem: "marker \<in> set markers"
      by (auto simp: find_Some_iff)
    from lastIndexOf_some[OF inc] obtain i where
      i: "lastIndexOf tx marker = int i" "occursAt tx marker i" "\<forall>j>i. \<not> occursAt tx marker j"
      by blast
    from markers_solid mem have "marker \<noteq> []" "\<not> isSpace (hd marker)" by auto
    from trim_nonempty[OF i(2) this] have ne: "trim (drop i tx) \<noteq> []" .
    have "extractFinalSummary tx = Some (trim (drop i tx))"
      using f i(1) by (simp add: extractFinalSummary_cases)
    with d ne have "applyDetailPruning H msg config
               = Inr (Fresh (withContent msg
                   (preserveContentShape ?c (detailPrefix @ trim (drop i tx)))))" by simp
    with i show "\<exists>i. lastIndexOf tx marker = int i \<and> occursAt tx marker i
           \<and> (\<forall>j>i. \<not> occursAt tx marker j)
           \<and> applyDetailPruning H msg config
               = Inr (Fresh (withContent msg
                   (preserveContentShape ?c (detailPrefix @ trim (drop i tx)))))" by blast
  qed
  have c2: "List.find (str_includes tx) markers = None \<and> \<not> list_all isSpace tx \<longrightarrow>
          last ?paras \<noteq> []
          \<and> applyDetailPruning H msg config
              = Inr (Fresh (withContent msg
                  (preserveContentShape ?c (detailPrefix @ last ?paras))))"
  proof
    assume a: "List.find (str_includes tx) markers = None \<and> \<not> list_all isSpace tx"
    then have ne: "?paras \<noteq> []" by (simp add: paras_empty_iff)
    then have "last ?paras \<in> set ?paras" by (rule last_in_set)
    then have l: "last ?paras \<noteq> []" by simp
    have "extractFinalSummary tx = Some (last ?paras)"
      using a ne by (simp add: extractFinalSummary_cases Let_def)
    with d l show "last ?paras \<noteq> []
          \<and> applyDetailPruning H msg config
              = Inr (Fresh (withContent msg
                  (preserveContentShape ?c (detailPrefix @ last ?paras))))" by simp
  qed
  have c3: "list_all isSpace tx \<longrightarrow>
          applyDetailPruning H msg config
            = Inr (Fresh (withContent msg
                (preserveContentShape ?c (detail_placeholder config))))"
  proof
    assume sp: "list_all isSpace tx"
    from space_no_marker[OF sp] sp have "extractFinalSummary tx = None"
      by (simp add: extractFinalSummary_cases Let_def paras_empty_iff)
    with d show "applyDetailPruning H msg config
            = Inr (Fresh (withContent msg
                (preserveContentShape ?c (detail_placeholder config))))" by simp
  qed
  from c1 c2 c3 show ?thesis by blast
qed

theorem detail_pruning_tool_result_witness:
  "isToolResultRole (roleOf asciiHost priorityMessage)
   \<and> \<not> imageSkipped asciiHost exampleConfig priorityMessage
   \<and> toUnifiedText asciiHost (getProp priorityMessage (asc ''content''))
       = Some (asc ''Final: a Summary: b'')
   \<and> List.find (str_includes (asc ''Final: a Summary: b'')) markers = Some (asc ''Final:'')
   \<and> applyDetailPruning asciiHost priorityMessage exampleConfig
       = Inr (Fresh (withContent priorityMessage
                (JStr (detailPrefix @ asc ''Final: a Summary: b''))))
   \<and> isToolResultRole (roleOf asciiHost paragraphMessage)
   \<and> \<not> imageSkipped asciiHost exampleConfig paragraphMessage
   \<and> toUnifiedText asciiHost (getProp paragraphMessage (asc ''content''))
       = Some (asc ''one'' @ [10, 32, 10] @ asc ''two '')
   \<and> List.find (str_includes (asc ''one'' @ [10, 32, 10] @ asc ''two '')) markers = None
   \<and> \<not> list_all isSpace (asc ''one'' @ [10, 32, 10] @ asc ''two '')
   \<and> applyDetailPruning asciiHost paragraphMessage exampleConfig
       = Inr (Fresh (withContent paragraphMessage (JStr (detailPrefix @ asc ''two''))))
   \<and> isToolResultRole (roleOf asciiHost blankMessage)
   \<and> \<not> imageSkipped asciiHost exampleConfig blankMessage
   \<and> toUnifiedText asciiHost (getProp blankMessage (asc ''content'')) = Some [32, 10]
   \<and> list_all isSpace [32, 10]
   \<and> applyDetailPruning asciiHost blankMessage exampleConfig
       = Inr (Fresh (withContent blankMessage (JStr (detail_placeholder exampleConfig))))"
proof -
  from detail_pruning_tool_result[OF priority_role priority_not_skipped priority_unified,
      of "asc ''Final:''"] priority_first_marker
  obtain i where i: "lastIndexOf (asc ''Final: a Summary: b'') (asc ''Final:'') = int i"
    and r: "applyDetailPruning asciiHost priorityMessage exampleConfig
       = Inr (Fresh (withContent priorityMessage
           (preserveContentShape (getProp priorityMessage (asc ''content''))
              (detailPrefix @ trim (drop i (asc ''Final: a Summary: b''))))))"
    by blast
  from i priority_last_index(1) have "i = 0" by simp
  with r have "applyDetailPruning asciiHost priorityMessage exampleConfig
       = Inr (Fresh (withContent priorityMessage
           (preserveContentShape (getProp priorityMessage (asc ''content''))
              (detailPrefix @ trim (drop 0 (asc ''Final: a Summary: b''))))))"
    by (simp only:)
  then have a: "applyDetailPruning asciiHost priorityMessage exampleConfig
       = Inr (Fresh (withContent priorityMessage
                (JStr (detailPrefix @ asc ''Final: a Summary: b''))))"
    by (simp only: priority_trim priorityMessage_def string_shape)
  from detail_pruning_tool_result[OF paragraph_role paragraph_not_skipped paragraph_unified]
    paragraph_no_marker paragraph_not_blank
  have "applyDetailPruning asciiHost paragraphMessage exampleConfig
       = Inr (Fresh (withContent paragraphMessage
           (preserveContentShape (getProp paragraphMessage (asc ''content''))
              (detailPrefix @ last (filter (\<lambda>p. p \<noteq> [])
                 (map trim (splitBlank [] (asc ''one'' @ [10, 32, 10] @ asc ''two ''))))))))"
    by blast
  then have b: "applyDetailPruning asciiHost paragraphMessage exampleConfig
       = Inr (Fresh (withContent paragraphMessage (JStr (detailPrefix @ asc ''two''))))"
    by (simp only: paragraph_last paragraphMessage_def string_shape)
  from detail_pruning_tool_result[OF blank_role blank_not_skipped blank_unified] blank_all_space
  have "applyDetailPruning asciiHost blankMessage exampleConfig
       = Inr (Fresh (withContent blankMessage
           (preserveContentShape (getProp blankMessage (asc ''content''))
              (detail_placeholder exampleConfig))))"
    by blast
  then have c: "applyDetailPruning asciiHost blankMessage exampleConfig
       = Inr (Fresh (withContent blankMessage (JStr (detail_placeholder exampleConfig))))"
    by (simp only: blankMessage_def string_shape)
  from priority_role priority_not_skipped priority_unified priority_first_marker a
    paragraph_role paragraph_not_skipped paragraph_unified paragraph_no_marker
    paragraph_not_blank b blank_role blank_not_skipped blank_unified blank_all_space c
  show ?thesis by blast
qed

text \<open>
  C8 as stated fails where two markers occur and the one that is earlier in the list
  comes first in the text: in \<open>Final: a Summary: b\<close> the last occurrence of a marker is
  that of \<open>Summary:\<close> at index 9, and the text kept starts at \<open>Final:\<close>, at index 0.
\<close>

theorem detail_marker_priority_counterexample:
  "isToolResultRole (roleOf asciiHost priorityMessage)
   \<and> \<not> imageSkipped asciiHost exampleConfig priorityMessage
   \<and> toUnifiedText asciiHost (getProp priorityMessage (asc ''content''))
       = Some (asc ''Final: a Summary: b'')
   \<and> lastIndexOf (asc ''Final: a Summary: b'') (asc ''Final:'') = 0
   \<and> lastIndexOf (asc ''Final: a Summary: b'') (asc ''Summary:'') = 9
   \<and> applyDetailPruning asciiHost priorityMessage exampleConfig
       = Inr (Fresh (withContent priorityMessage
                (JStr (detailPrefix @ asc ''Final: a Summary: b''))))"
proof -
  have "extractFinalSummary (asc ''Final: a Summary: b'') = Some (asc ''Final: a Summary: b'')"
    by (simp add: extractFinalSummary_cases priority_first_marker priority_last_index
        priority_trim)
  with detail_tool_result[OF priority_role priority_not_skipped priority_unified]
  have "applyDetailPruning asciiHost priorityMessage exampleConfig
       = Inr (Fresh (withContent priorityMessage
           (preserveContentShape (getProp priorityMessage (asc ''content''))
              (detailPrefix @ asc ''Final: a Summary: b''))))"
    by (simp add: asc_def)
  then have "applyDetailPruning asciiHost priorityMessage exampleConfig
       = Inr (Fresh (withContent priorityMessage
                (JStr (detailPrefix @ asc ''Final: a Summary: b''))))"
    by (simp only: priorityMessage_def string_shape)
  with priority_role priority_not_skipped priority_unified priority_last_index
  show ?thesis by blast
qed




end
